theory Spec2Isabelle
  imports Main "HOL-Library.AList"
begin

section \<open>Data model of \<open>server_connection.py\<close>\<close>

subsection \<open>Snowpark data types\<close>

text \<open>
  The classes of \<open>snowflake.snowpark.types\<close> that \<open>_get_data_type\<close> builds.
  Python integers are unbounded, so precision and scale are \<open>int\<close>.
\<close>

datatype DataType =
    ArrayType DataType
  | VariantType
  | MapType DataType DataType
  | GeographyType
  | BooleanType
  | BinaryType
  | StringType
  | TimeType
  | TimestampType
  | DateType
  | DecimalType int int
  | DoubleType
  | LongType

subsection \<open>Exceptions\<close>

text \<open>
  What the connector (cursor, connection) can raise. The code distinguishes three
  classes by its \<open>except\<close> clauses: \<open>ReauthenticationRequest\<close> (with its cause),
  \<open>NotSupportedError\<close>, and everything else. \<open>OtherException\<close> is any other
  subclass of \<open>Exception\<close>; \<open>NonException\<close> is a \<open>BaseException\<close> that is not an
  \<open>Exception\<close> (\<open>KeyboardInterrupt\<close>). The string is what \<open>str(ex)\<close> returns.
\<close>

datatype connector_error =
    ReauthenticationRequest string
  | NotSupportedError string
  | OtherException string
  | NonException string

fun str_of :: "connector_error \<Rightarrow> string" where
  "str_of (ReauthenticationRequest m) = m"
| "str_of (NotSupportedError m) = m"
| "str_of (OtherException m) = m"
| "str_of (NonException m) = m"

text \<open>
  Everything a method of \<open>ServerConnection\<close> can raise: a connector error passed on
  as it is, the exceptions built by \<open>SnowparkClientExceptionMessages\<close>, and Python's
  own \<open>NotImplementedError\<close> and \<open>KeyError\<close>.
\<close>

datatype exn =
    Raised connector_error
  | SERVER_SESSION_HAS_BEEN_CLOSED
  | SERVER_SESSION_EXPIRED string
  | SERVER_FAILED_FETCH_PANDAS string
  | SERVER_QUERY_IS_CANCELLED
  | SQL_LAST_QUERY_RETURN_RESULTSET
  | NotImplementedError string int int
  | KeyError

section \<open>The type mapper\<close>

text \<open>
  \<open>_get_data_type\<close>, lines 176 to 225. \<open>DecimalType._MAX_PRECISION\<close> and
  \<open>DecimalType._MAX_SCALE\<close> are constants of \<open>snowflake.snowpark.types\<close>, which is
  not among the sources; they are the first two parameters.
\<close>

definition get_data_type :: "int \<Rightarrow> int \<Rightarrow> string \<Rightarrow> int \<Rightarrow> int \<Rightarrow> exn + DataType" where
  "get_data_type MAX_PRECISION MAX_SCALE column_type_name precision scale =
    (if column_type_name = ''ARRAY'' then Inr (ArrayType StringType)
     else if column_type_name = ''VARIANT'' then Inr VariantType
     else if column_type_name = ''OBJECT'' then Inr (MapType StringType StringType)
     else if column_type_name = ''GEOGRAPHY'' then Inr GeographyType
     else if column_type_name = ''BOOLEAN'' then Inr BooleanType
     else if column_type_name = ''BINARY'' then Inr BinaryType
     else if column_type_name = ''TEXT'' then Inr StringType
     else if column_type_name = ''TIME'' then Inr TimeType
     else if column_type_name = ''TIMESTAMP''
          \<or> column_type_name = ''TIMESTAMP_LTZ''
          \<or> column_type_name = ''TIMESTAMP_TZ''
          \<or> column_type_name = ''TIMESTAMP_NTZ'' then Inr TimestampType
     else if column_type_name = ''DATE'' then Inr DateType
     else if column_type_name = ''DECIMAL''
          \<or> (column_type_name = ''FIXED'' \<and> scale \<noteq> 0) then
       (if precision \<noteq> 0 \<or> scale \<noteq> 0 then
          (if precision > MAX_PRECISION
           then Inr (DecimalType MAX_PRECISION (scale + precision - MAX_SCALE))
           else Inr (DecimalType precision scale))
        else Inr (DecimalType 38 18))
     else if column_type_name = ''REAL'' then Inr DoubleType
     else if column_type_name = ''FIXED'' \<and> scale = 0 then Inr LongType
     else Inl (NotImplementedError column_type_name precision scale))"

section \<open>Plans, cursors and the connection\<close>

subsection \<open>Statements and plans\<close>

text \<open>
  \<open>Query\<close> and its subclass \<open>BatchInsertQuery\<close> of \<open>snowflake_plan\<close>: a SQL text and
  the placeholder token that stands for the statement's id in later statements; a batch
  insert carries its parameter rows as well. A plan has its statements and its
  post-actions; the session it belongs to lives in the connector state below.
\<close>

type_synonym row = "string list"

datatype query =
    Query (sql: string) (query_id_place_holder: string)
  | BatchInsertQuery (sql: string) (query_id_place_holder: string) (rows: "row list")

record SnowflakePlan =
  queries :: "query list"
  post_actions :: "string list"

subsection \<open>What the connector returns\<close>

text \<open>
  The cursor returned by \<open>execute\<close> and \<open>executemany\<close>, with the two attributes the code
  reads; the pair \<open>(sfqid, query)\<close> is the record handed to the listeners.
\<close>

datatype cursor = Cursor (sfqid: string) (query: string)

type_synonym QueryRecord = "string \<times> string"

datatype fetched = Rows "row list" | DataFrame "row list"

text \<open>A \<open>ResultMetadata\<close>: name, type code, precision, scale, nullable.\<close>

type_synonym ResultMetadata = "string \<times> nat \<times> int \<times> int \<times> bool"

text \<open>The dictionary \<open>{"data": data, "sfqid": sfqid}\<close> that \<open>run_query\<close> returns.\<close>

datatype result_dict = ResultDict (data: fetched) (result_sfqid: string)

text \<open>
  Keyword arguments. The only one the code inspects is \<open>_statement_params\<close>, a
  dictionary of strings, so every keyword argument is a dictionary of strings.
\<close>

type_synonym kwargs = "string \<rightharpoonup> (string \<rightharpoonup> string)"

subsection \<open>The collaborators\<close>

text \<open>
  Everything \<open>ServerConnection\<close> calls and does not define, over a state \<open>'w\<close> of the
  outside world (connection, cursor, server, session): the connection and cursor of the
  Python connector, the session's action counter and cancellation watermark,
  \<open>Utils.is_in_stored_procedure\<close>, \<open>AnalyzerPackage.quote_name\<close>, and the decorator
  \<open>SnowflakePlan.Decorator.wrap_exception\<close> of \<open>get_result_set\<close>, taken as a translation
  of the exception that leaves the method, as the decorator of this file is. A call on
  the cursor returns its outcome and the new state of the world; what other threads do
  between two calls (moving the watermark, closing the connection) is part of that new
  state. Reading \<open>is_closed\<close>, \<open>session_id\<close>, \<open>description\<close> and the watermark
  does not raise and changes nothing.
\<close>

record 'w connector =
  conn_is_closed :: "'w \<Rightarrow> bool"
  conn_session_id :: "'w \<Rightarrow> int"
  cursor_execute :: "string \<Rightarrow> kwargs \<Rightarrow> 'w \<Rightarrow> (connector_error + cursor) \<times> 'w"
  cursor_executemany :: "string \<Rightarrow> row list \<Rightarrow> 'w \<Rightarrow> (connector_error + cursor) \<times> 'w"
  cursor_fetch_pandas_all :: "'w \<Rightarrow> (connector_error + fetched) \<times> 'w"
  cursor_fetchall :: "'w \<Rightarrow> (connector_error + fetched) \<times> 'w"
  cursor_description :: "'w \<Rightarrow> ResultMetadata list option"
  session_generate_new_action_id :: "'w \<Rightarrow> int \<times> 'w"
  session_get_last_canceled_id :: "'w \<Rightarrow> int"
  Utils_is_in_stored_procedure :: bool
  Plan_wrap_exception :: "exn \<Rightarrow> exn"
  quote_name :: "string \<Rightarrow> string"

subsection \<open>The state of a \<open>ServerConnection\<close>\<close>

text \<open>
  One event per call of \<open>execute\<close> or \<open>executemany\<close> on the cursor: the text passed and
  the outcome. The list of events is not a field of the class; it records what the
  object asked the server to execute.
\<close>

datatype event =
    Execute string "connector_error + cursor"
  | ExecuteMany string "row list" "connector_error + cursor"

fun executed_sql :: "event \<Rightarrow> string" where
  "executed_sql (Execute q r) = q"
| "executed_sql (ExecuteMany q ps r) = q"

text \<open>
  \<open>_conn\<close> and \<open>_cursor\<close> are the world; \<open>_query_listener\<close> is a set of
  \<open>QueryHistory\<close> objects, named by their addresses, and \<open>histories\<close> is the store that
  holds the list \<open>_queries\<close> of each.
\<close>

record 'w ServerConnection =
  conn :: 'w
  lower_case_parameters :: "string \<rightharpoonup> string"
  query_listener :: "nat set"
  histories :: "nat \<Rightarrow> QueryRecord list"
  trace :: "event list"

section \<open>The session facade\<close>

text \<open>
  \<open>_Decorator.wrap_exception\<close>, lines 58 to 75. \<open>translate\<close> is its two \<open>except\<close>
  clauses: a \<open>ReauthenticationRequest\<close> becomes \<open>SERVER_SESSION_EXPIRED\<close> with its
  cause, any other exception is raised again as it is.
\<close>

fun translate :: "exn \<Rightarrow> exn" where
  "translate (Raised (ReauthenticationRequest cause)) = SERVER_SESSION_EXPIRED cause"
| "translate ex = ex"

definition wrap_exception ::
  "'w connector \<Rightarrow> ('w ServerConnection \<Rightarrow> (exn + 'a) \<times> 'w ServerConnection)
    \<Rightarrow> 'w ServerConnection \<Rightarrow> (exn + 'a) \<times> 'w ServerConnection" where
  "wrap_exception env func s =
    (if conn_is_closed env (conn s) then (Inl SERVER_SESSION_HAS_BEEN_CLOSED, s)
     else (case func s of
             (Inl ex, s') \<Rightarrow> (Inl (translate ex), s')
           | (Inr v, s') \<Rightarrow> (Inr v, s')))"

definition add_query_listener :: "nat \<Rightarrow> 'w ServerConnection \<Rightarrow> 'w ServerConnection" where
  "add_query_listener listener s = s\<lparr>query_listener := insert listener (query_listener s)\<rparr>"

text \<open>\<open>set.remove\<close> raises \<open>KeyError\<close> when the element is not in the set.\<close>

definition remove_query_listener ::
  "nat \<Rightarrow> 'w ServerConnection \<Rightarrow> exn + 'w ServerConnection" where
  "remove_query_listener listener s =
    (if listener \<in> query_listener s
     then Inr (s\<lparr>query_listener := query_listener s - {listener}\<rparr>)
     else Inl KeyError)"

definition is_closed :: "'w connector \<Rightarrow> 'w ServerConnection \<Rightarrow> bool" where
  "is_closed env s = conn_is_closed env (conn s)"

definition get_session_id ::
  "'w connector \<Rightarrow> 'w ServerConnection \<Rightarrow> (exn + int) \<times> 'w ServerConnection" where
  "get_session_id env = wrap_exception env (\<lambda>s. (Inr (conn_session_id env (conn s)), s))"

definition get_default_database ::
  "'w connector \<Rightarrow> 'w ServerConnection \<Rightarrow> (exn + string option) \<times> 'w ServerConnection" where
  "get_default_database env s =
    (case lower_case_parameters s ''database'' of
       Some d \<Rightarrow> (Inr (Some (quote_name env d)), s)
     | None \<Rightarrow> (Inr None, s))"

definition get_default_schema ::
  "'w connector \<Rightarrow> 'w ServerConnection \<Rightarrow> (exn + string option) \<times> 'w ServerConnection" where
  "get_default_schema env s =
    (case lower_case_parameters s ''schema'' of
       Some d \<Rightarrow> (Inr (Some (quote_name env d)), s)
     | None \<Rightarrow> (Inr None, s))"

section \<open>The listener registry and the execution engine\<close>

text \<open>
  Modelled from the spec: \<open>QueryHistory._add_query\<close>, of \<open>query_history.py\<close>, is not
  among the sources. A listener has append-only visibility into the (statement id,
  statement text) pairs: the record is appended to the list \<open>_queries\<close> of the listener,
  and the call does not raise.
\<close>

definition add_query :: "QueryRecord \<Rightarrow> QueryRecord list \<Rightarrow> QueryRecord list" where
  "add_query query_record history = history @ [query_record]"

text \<open>
  \<open>notify_query_listeners\<close>, lines 352 to 354: every listener of the set is sent the
  record. The listeners are distinct objects, so the order of the iteration over the set
  does not show in the histories.
\<close>

definition notify_query_listeners ::
  "QueryRecord \<Rightarrow> 'w ServerConnection \<Rightarrow> 'w ServerConnection" where
  "notify_query_listeners query_record s =
    s\<lparr>histories := (\<lambda>listener.
        if listener \<in> query_listener s then add_query query_record (histories s listener)
        else histories s listener)\<rparr>"

text \<open>
  \<open>run_query\<close>, lines 356 to 386. An exception raised in the handler of
  \<open>NotSupportedError\<close> (by the second \<open>fetchall\<close>) is not caught by the handler of
  \<open>BaseException\<close> beside it.
\<close>

definition run_query ::
  "'w connector \<Rightarrow> string \<Rightarrow> bool \<Rightarrow> kwargs \<Rightarrow> 'w ServerConnection
    \<Rightarrow> (exn + result_dict) \<times> 'w ServerConnection" where
  "run_query env query_text to_pandas kw =
    wrap_exception env (\<lambda>s.
      let (r, w1) = cursor_execute env query_text kw (conn s);
          s1 = s\<lparr>conn := w1, trace := trace s @ [Execute query_text r]\<rparr>
      in case r of
           Inl ex \<Rightarrow> (Inl (Raised ex), s1)
         | Inr results_cursor \<Rightarrow>
            (let s2 = notify_query_listeners (sfqid results_cursor, query results_cursor) s1
             in if to_pandas then
                  (let (p, w3) = cursor_fetch_pandas_all env (conn s2);
                       s3 = s2\<lparr>conn := w3\<rparr>
                   in case p of
                        Inr d \<Rightarrow> (Inr (ResultDict d (sfqid results_cursor)), s3)
                      | Inl (NotSupportedError m) \<Rightarrow>
                          (let (f, w4) = cursor_fetchall env (conn s3);
                               s4 = s3\<lparr>conn := w4\<rparr>
                           in case f of
                                Inr d \<Rightarrow> (Inr (ResultDict d (sfqid results_cursor)), s4)
                              | Inl ex \<Rightarrow> (Inl (Raised ex), s4))
                      | Inl ex \<Rightarrow> (Inl (SERVER_FAILED_FETCH_PANDAS (str_of ex)), s3))
                else
                  (let (f, w3) = cursor_fetchall env (conn s2);
                       s3 = s2\<lparr>conn := w3\<rparr>
                   in case f of
                        Inr d \<Rightarrow> (Inr (ResultDict d (sfqid results_cursor)), s3)
                      | Inl ex \<Rightarrow> (Inl (Raised ex), s3))))"

text \<open>
  \<open>run_batch_insert\<close>, lines 455 to 483. \<open>if query_tag\<close> is false for \<open>None\<close> and
  for the empty string. \<open>CHR 0x27\<close> is the single quote.
\<close>

definition query_tag_of :: "'w connector \<Rightarrow> kwargs \<Rightarrow> string option" where
  "query_tag_of env kw =
    (case kw ''_statement_params'' of
       None \<Rightarrow> None
     | Some statement_params \<Rightarrow>
        (case statement_params ''QUERY_TAG'' of
           None \<Rightarrow> None
         | Some t \<Rightarrow> if \<not> Utils_is_in_stored_procedure env then Some t else None))"

definition truthy :: "string option \<Rightarrow> bool" where
  "truthy v = (case v of None \<Rightarrow> False | Some t \<Rightarrow> t \<noteq> [])"

text \<open>One \<open>execute\<close> on the cursor followed by the notification of the listeners.\<close>

definition execute_and_notify ::
  "'w connector \<Rightarrow> string \<Rightarrow> 'w ServerConnection \<Rightarrow> (exn + unit) \<times> 'w ServerConnection" where
  "execute_and_notify env text s =
    (let (r, w1) = cursor_execute env text Map.empty (conn s);
         s1 = s\<lparr>conn := w1, trace := trace s @ [Execute text r]\<rparr>
     in case r of
          Inl ex \<Rightarrow> (Inl (Raised ex), s1)
        | Inr c \<Rightarrow> (Inr (), notify_query_listeners (sfqid c, query c) s1))"

definition run_batch_insert ::
  "'w connector \<Rightarrow> string \<Rightarrow> row list \<Rightarrow> kwargs \<Rightarrow> 'w ServerConnection
    \<Rightarrow> (exn + unit) \<times> 'w ServerConnection" where
  "run_batch_insert env query_text rws kw =
    wrap_exception env (\<lambda>s.
      let params = map (\<lambda>row. row) rws;
          query_tag = query_tag_of env kw;
          (t1, s1) = (case query_tag of
                        None \<Rightarrow> (Inr (), s)
                      | Some t \<Rightarrow>
                          if t \<noteq> []
                          then execute_and_notify env
                                 (''alter session set query_tag='' @ [CHR 0x27] @ t @ [CHR 0x27]) s
                          else (Inr (), s))
      in case t1 of
           Inl ex \<Rightarrow> (Inl ex, s1)
         | Inr _ \<Rightarrow>
            (let (r, w2) = cursor_executemany env query_text params (conn s1);
                 s2 = s1\<lparr>conn := w2, trace := trace s1 @ [ExecuteMany query_text params r]\<rparr>
             in case r of
                  Inl ex \<Rightarrow> (Inl (Raised ex), s2)
                | Inr results_cursor \<Rightarrow>
                   (let s3 = notify_query_listeners
                               (sfqid results_cursor, query results_cursor) s2
                    in if truthy query_tag
                       then execute_and_notify env ''alter session unset query_tag'' s3
                       else (Inr (), s3))))"

section \<open>The plan executor\<close>

text \<open>
  Python's \<open>str.replace(old, new)\<close>: the occurrences of \<open>old\<close> are found from left
  to right without overlap and each is replaced by \<open>new\<close>; for an empty \<open>old\<close>, \<open>new\<close>
  is put before every character and at the end. \<open>replace_from\<close> scans the text; its
  counter is the number of characters still to skip after a match.
\<close>

fun replace_from :: "string \<Rightarrow> string \<Rightarrow> nat \<Rightarrow> string \<Rightarrow> string" where
  "replace_from old new k [] = []"
| "replace_from old new (Suc k) (c # cs) = replace_from old new k cs"
| "replace_from old new 0 (c # cs) =
    (if take (length old) (c # cs) = old
     then new @ replace_from old new (length old - 1) cs
     else c # replace_from old new 0 cs)"

definition replace :: "string \<Rightarrow> string \<Rightarrow> string \<Rightarrow> string" where
  "replace text old new =
    (if old = [] then new @ concat (map (\<lambda>c. c # new) text)
     else replace_from old new 0 text)"

text \<open>
  The dictionary \<open>placeholders\<close> keeps its keys in the order of their first insertion,
  so it is an association list: \<open>AList.update\<close> overwrites the value of a key already
  there and appends a new key at the end. The inner loop of lines 430 and 431 replaces
  one token after the other in that order.
\<close>

type_synonym placeholders = "(string \<times> string) list"

definition substitute :: "placeholders \<Rightarrow> string \<Rightarrow> string" where
  "substitute placeholders text =
    foldl (\<lambda>final_query (holder, ident). replace final_query holder ident) text placeholders"

text \<open>
  The local variables of \<open>get_result_set\<close> that the loop over the statements changes:
  \<open>placeholders\<close>, \<open>result\<close> and \<open>result_meta\<close>.
\<close>

type_synonym locals = "placeholders \<times> result_dict option \<times> ResultMetadata list option"

text \<open>The \<open>if\<close> and \<open>else\<close> branches of the loop body, lines 426 to 434.\<close>

definition run_statement ::
  "'w connector \<Rightarrow> bool \<Rightarrow> kwargs \<Rightarrow> query \<Rightarrow> locals \<Rightarrow> 'w ServerConnection
    \<Rightarrow> (exn + locals) \<times> 'w ServerConnection" where
  "run_statement env to_pandas kw q vars s =
    (case vars of (placeholders, result, result_meta) \<Rightarrow>
      (case q of
         BatchInsertQuery text holder rws \<Rightarrow>
           (case run_batch_insert env text rws kw s of
              (Inl ex, s') \<Rightarrow> (Inl ex, s')
            | (Inr _, s') \<Rightarrow> (Inr (placeholders, result, result_meta), s'))
       | Query text holder \<Rightarrow>
           (let final_query = substitute placeholders text
            in case run_query env final_query to_pandas kw s of
                 (Inl ex, s') \<Rightarrow> (Inl ex, s')
               | (Inr res, s') \<Rightarrow>
                   (Inr (AList.update holder (result_sfqid res) placeholders,
                         Some res, cursor_description env (conn s')), s'))))"

text \<open>
  The loop of lines 425 to 436: a statement, then the comparison of the action id with
  the watermark; an exception leaves the loop.
\<close>

fun run_queries ::
  "'w connector \<Rightarrow> int \<Rightarrow> bool \<Rightarrow> kwargs \<Rightarrow> query list \<Rightarrow> locals \<Rightarrow> 'w ServerConnection
    \<Rightarrow> (exn + locals) \<times> 'w ServerConnection" where
  "run_queries env action_id to_pandas kw [] vars s = (Inr vars, s)"
| "run_queries env action_id to_pandas kw (q # qs) vars s =
    (case run_statement env to_pandas kw q vars s of
       (Inl ex, s') \<Rightarrow> (Inl ex, s')
     | (Inr vars', s') \<Rightarrow>
         if action_id < session_get_last_canceled_id env (conn s')
         then (Inl SERVER_QUERY_IS_CANCELLED, s')
         else run_queries env action_id to_pandas kw qs vars' s')"

text \<open>The loop of the \<open>finally\<close> block, lines 439 and 440.\<close>

fun run_post_actions ::
  "'w connector \<Rightarrow> kwargs \<Rightarrow> string list \<Rightarrow> 'w ServerConnection
    \<Rightarrow> (exn + unit) \<times> 'w ServerConnection" where
  "run_post_actions env kw [] s = (Inr (), s)"
| "run_post_actions env kw (action # actions) s =
    (case run_query env action False kw s of
       (Inl ex, s') \<Rightarrow> (Inl ex, s')
     | (Inr _, s') \<Rightarrow> run_post_actions env kw actions s')"

text \<open>
  \<open>get_result_set\<close>, lines 413 to 445. An exception raised in the \<open>finally\<close> block
  replaces the one that left the \<open>try\<close> block. The exception that leaves the method
  goes through the decorator of \<open>SnowflakePlan\<close>.
\<close>

definition get_result_set ::
  "'w connector \<Rightarrow> SnowflakePlan \<Rightarrow> bool \<Rightarrow> kwargs \<Rightarrow> 'w ServerConnection
    \<Rightarrow> (exn + fetched \<times> ResultMetadata list option) \<times> 'w ServerConnection" where
  "get_result_set env plan to_pandas kw s =
    (let (action_id, w0) = session_generate_new_action_id env (conn s);
         s0 = s\<lparr>conn := w0\<rparr>;
         (body, s1) = run_queries env action_id to_pandas kw (queries plan) ([], None, None) s0;
         (fin, s2) = run_post_actions env kw (post_actions plan) s1
     in case fin of
          Inl ex \<Rightarrow> (Inl (Plan_wrap_exception env ex), s2)
        | Inr _ \<Rightarrow>
           (case body of
              Inl ex \<Rightarrow> (Inl (Plan_wrap_exception env ex), s2)
            | Inr (placeholders, result, result_meta) \<Rightarrow>
               (case result of
                  None \<Rightarrow> (Inl (Plan_wrap_exception env SQL_LAST_QUERY_RETURN_RESULTSET), s2)
                | Some res \<Rightarrow> (Inr (data res, result_meta), s2))))"

section \<open>Notions used in the properties\<close>

text \<open>The record a listener is sent for an event: none when the execution raised.\<close>

fun broadcast_of :: "event \<Rightarrow> QueryRecord list" where
  "broadcast_of (Execute q (Inr c)) = [(sfqid c, query c)]"
| "broadcast_of (Execute q (Inl ex)) = []"
| "broadcast_of (ExecuteMany q ps (Inr c)) = [(sfqid c, query c)]"
| "broadcast_of (ExecuteMany q ps (Inl ex)) = []"

definition broadcasts :: "event list \<Rightarrow> QueryRecord list" where
  "broadcasts evs = concat (map broadcast_of evs)"

text \<open>
  \<open>advances s evs s'\<close>: from \<open>s\<close> to \<open>s'\<close> the cursor was asked to execute exactly
  \<open>evs\<close>, in this order; the set of listeners and the connection parameters are the
  same; every listener registered in \<open>s\<close> was sent the record of each successful
  execution of \<open>evs\<close> once, in order, and nothing else; no other history changed.
\<close>

definition advances :: "'w ServerConnection \<Rightarrow> event list \<Rightarrow> 'w ServerConnection \<Rightarrow> bool" where
  "advances s evs s' \<longleftrightarrow>
     trace s' = trace s @ evs
     \<and> query_listener s' = query_listener s
     \<and> lower_case_parameters s' = lower_case_parameters s
     \<and> histories s' =
         (\<lambda>listener. if listener \<in> query_listener s
                     then histories s listener @ broadcasts evs
                     else histories s listener)"

text \<open>A statement whose execution binds a result: every statement but a batch insert.\<close>

fun result_bearing :: "query \<Rightarrow> bool" where
  "result_bearing (Query text holder) = True"
| "result_bearing (BatchInsertQuery text holder rws) = False"

text \<open>
  The index of the leftmost occurrence of \<open>old\<close> in a text, as \<open>str.find\<close> returns
  it; \<open>None\<close> when there is none.
\<close>

fun first_occurrence :: "string \<Rightarrow> string \<Rightarrow> nat option" where
  "first_occurrence old [] = (if old = [] then Some 0 else None)"
| "first_occurrence old (c # cs) =
    (if take (length old) (c # cs) = old then Some 0
     else map_option Suc (first_occurrence old cs))"

text \<open>The events of \<open>executemany\<close>.\<close>

fun batch_event :: "event \<Rightarrow> bool" where
  "batch_event (ExecuteMany q ps r) = True"
| "batch_event (Execute q r) = False"

text \<open>An event whose execution did not raise.\<close>

fun succeeded :: "event \<Rightarrow> bool" where
  "succeeded (Execute q (Inr c)) = True"
| "succeeded (Execute q (Inl ex)) = False"
| "succeeded (ExecuteMany q ps (Inr c)) = True"
| "succeeded (ExecuteMany q ps (Inl ex)) = False"

text \<open>The text of the statement that sets the query tag.\<close>

definition set_query_tag :: "string \<Rightarrow> string" where
  "set_query_tag t = ''alter session set query_tag='' @ [CHR 0x27] @ t @ [CHR 0x27]"

text \<open>
  The calls on the cursor that a batch insert is to make, in the words of the spec, from
  a state \<open>w\<close> of the world: the multi-row insert, wrapped, when a query tag is requested
  outside a restricted context, in a statement that sets the tag and one that unsets
  it; a call that raises is the last. The result is the list of the calls with their
  outcomes and the state of the world after the last.
\<close>

definition batch_calls ::
  "'w connector \<Rightarrow> string \<Rightarrow> row list \<Rightarrow> kwargs \<Rightarrow> 'w \<Rightarrow> event list \<times> 'w" where
  "batch_calls env q rws kw w =
    (let insert_alone =
           (let (r2, w2) = cursor_executemany env q rws w
            in ([ExecuteMany q rws r2], w2))
     in case query_tag_of env kw of
          None \<Rightarrow> insert_alone
        | Some t \<Rightarrow>
           if t = [] then insert_alone
           else
             (let (r1, w1) = cursor_execute env (set_query_tag t) Map.empty w
              in case r1 of
                   Inl ex \<Rightarrow> ([Execute (set_query_tag t) r1], w1)
                 | Inr c1 \<Rightarrow>
                    (let (r2, w2) = cursor_executemany env q rws w1
                     in case r2 of
                          Inl ex \<Rightarrow> ([Execute (set_query_tag t) r1, ExecuteMany q rws r2], w2)
                        | Inr c2 \<Rightarrow>
                           (let (r3, w3) = cursor_execute env ''alter session unset query_tag''
                                             Map.empty w2
                            in ([Execute (set_query_tag t) r1, ExecuteMany q rws r2,
                                 Execute ''alter session unset query_tag'' r3], w3)))))"

text \<open>
  The state of the world after \<open>run_query\<close> on an open connection: after the
  execution when it raised, and after the fetches that follow it otherwise.
\<close>

definition world_after_query :: "'w connector \<Rightarrow> string \<Rightarrow> bool \<Rightarrow> kwargs \<Rightarrow> 'w \<Rightarrow> 'w" where
  "world_after_query env q to_pandas kw w =
    (let (r, w1) = cursor_execute env q kw w
     in case r of
          Inl ex \<Rightarrow> w1
        | Inr c \<Rightarrow>
           if to_pandas then
             (let (p, w2) = cursor_fetch_pandas_all env w1
              in case p of
                   Inr d \<Rightarrow> w2
                 | Inl (NotSupportedError m) \<Rightarrow> snd (cursor_fetchall env w2)
                 | Inl ex \<Rightarrow> w2)
           else snd (cursor_fetchall env w1))"

text \<open>
  A connector is recorded by \<open>calls\<close> when \<open>calls\<close> reads, in the state of the world,
  the list of the statements that the cursor has received: \<open>execute\<close> and \<open>executemany\<close>
  add their call and its outcome at the end, and nothing else changes the list.
\<close>

definition recording :: "'w connector \<Rightarrow> ('w \<Rightarrow> event list) \<Rightarrow> bool" where
  "recording env calls \<longleftrightarrow>
     (\<forall>q kw w. calls (snd (cursor_execute env q kw w))
        = calls w @ [Execute q (fst (cursor_execute env q kw w))])
     \<and> (\<forall>q rws w. calls (snd (cursor_executemany env q rws w))
        = calls w @ [ExecuteMany q rws (fst (cursor_executemany env q rws w))])
     \<and> (\<forall>w. calls (snd (cursor_fetch_pandas_all env w)) = calls w)
     \<and> (\<forall>w. calls (snd (cursor_fetchall env w)) = calls w)
     \<and> (\<forall>w. calls (snd (session_generate_new_action_id env w)) = calls w)"

text \<open>
  \<open>tracked calls s s'\<close>: what the cursor has received from \<open>s\<close> to \<open>s'\<close> is what the
  registered listeners were sent: the statements \<open>evs\<close> that the world has recorded are
  those of \<open>advances\<close>.
\<close>

definition tracked ::
  "('w \<Rightarrow> event list) \<Rightarrow> 'w ServerConnection \<Rightarrow> 'w ServerConnection \<Rightarrow> bool" where
  "tracked calls s s' \<longleftrightarrow>
     (\<exists>evs. advances s evs s' \<and> calls (conn s') = calls (conn s) @ evs)"

section \<open>A scripted connector\<close>

text \<open>
  A connector whose answers are written in its state, to run the definitions on
  concrete plans: which statements fail and with what, the id returned for a
  statement, the outcomes of the two fetches, and the watermark as a function of the
  number of statements executed so far.
\<close>

record world =
  w_closed :: bool
  w_fails :: "string \<Rightarrow> connector_error option"
  w_sfqid :: "string \<Rightarrow> string"
  w_pandas :: "connector_error option"
  w_rows :: "connector_error option"
  w_executed :: nat
  w_last_action_id :: int
  w_canceled :: "nat \<Rightarrow> int"

definition scripted_execute :: "string \<Rightarrow> world \<Rightarrow> (connector_error + cursor) \<times> world" where
  "scripted_execute text w =
    (case w_fails w text of
       Some ex \<Rightarrow> (Inl ex, w\<lparr>w_executed := Suc (w_executed w)\<rparr>)
     | None \<Rightarrow> (Inr (Cursor (w_sfqid w text) text), w\<lparr>w_executed := Suc (w_executed w)\<rparr>))"

definition scripted :: "world connector" where
  "scripted =
    \<lparr>conn_is_closed = w_closed,
     conn_session_id = (\<lambda>w. 1),
     cursor_execute = (\<lambda>text kw. scripted_execute text),
     cursor_executemany = (\<lambda>text params. scripted_execute text),
     cursor_fetch_pandas_all =
       (\<lambda>w. (case w_pandas w of Some ex \<Rightarrow> Inl ex | None \<Rightarrow> Inr (DataFrame [[''1'']]), w)),
     cursor_fetchall =
       (\<lambda>w. (case w_rows w of Some ex \<Rightarrow> Inl ex | None \<Rightarrow> Inr (Rows [[''1'']]), w)),
     cursor_description = (\<lambda>w. Some []),
     session_generate_new_action_id =
       (\<lambda>w. (w_last_action_id w + 1, w\<lparr>w_last_action_id := w_last_action_id w + 1\<rparr>)),
     session_get_last_canceled_id = (\<lambda>w. w_canceled w (w_executed w)),
     Utils_is_in_stored_procedure = False,
     Plan_wrap_exception = (\<lambda>ex. ex),
     quote_name = (\<lambda>name. CHR 0x22 # name @ [CHR 0x22])\<rparr>"

text \<open>An open connection on which every statement succeeds and nothing is cancelled.\<close>

definition quiet :: world where
  "quiet =
    \<lparr>w_closed = False,
     w_fails = (\<lambda>text. None),
     w_sfqid = (\<lambda>text. ''id:'' @ text),
     w_pandas = None,
     w_rows = None,
     w_executed = 0,
     w_last_action_id = 0,
     w_canceled = (\<lambda>n. 0)\<rparr>"

definition fresh :: "world \<Rightarrow> world ServerConnection" where
  "fresh w =
    \<lparr>conn = w,
     lower_case_parameters = Map.empty,
     query_listener = {},
     histories = (\<lambda>listener. []),
     trace = []\<rparr>"

text \<open>The same world, where one statement raises, with the given message.\<close>

definition failing :: "string \<Rightarrow> string \<Rightarrow> world \<Rightarrow> world" where
  "failing stmt msg w = w\<lparr>w_fails := (w_fails w)(stmt \<mapsto> OtherException msg)\<rparr>"

text \<open>The same world, where the watermark is 100 once \<open>n\<close> statements have been executed.\<close>

definition cancelled_after :: "nat \<Rightarrow> world \<Rightarrow> world" where
  "cancelled_after n w = w\<lparr>w_canceled := (\<lambda>k. if n \<le> k then 100 else 0)\<rparr>"

text \<open>Three plans: two statements, a statement and a batch insert, a batch insert alone.\<close>

definition two_selects :: SnowflakePlan where
  "two_selects =
    \<lparr>queries = [Query ''select 1'' ''T1'', Query ''select * from T1 join T1'' ''T2''],
     post_actions = [''drop a'', ''drop b'']\<rparr>"

definition select_then_insert :: SnowflakePlan where
  "select_then_insert =
    \<lparr>queries = [Query ''select 1'' ''T1'',
                BatchInsertQuery ''insert into t select T1'' ''T2'' [[''a'']]],
     post_actions = [''drop a'']\<rparr>"

definition insert_only :: SnowflakePlan where
  "insert_only =
    \<lparr>queries = [BatchInsertQuery ''insert into t values (?)'' ''T1'' [[''a''], [''b'']]],
     post_actions = [''drop a'']\<rparr>"

text \<open>
  The scripted connector over a world that also keeps the list of the statements the
  cursor has received.
\<close>

definition recorder :: "(world \<times> event list) connector" where
  "recorder =
    \<lparr>conn_is_closed = (\<lambda>(w, received). conn_is_closed scripted w),
     conn_session_id = (\<lambda>(w, received). conn_session_id scripted w),
     cursor_execute = (\<lambda>q kw (w, received).
       (fst (cursor_execute scripted q kw w),
        (snd (cursor_execute scripted q kw w),
         received @ [Execute q (fst (cursor_execute scripted q kw w))]))),
     cursor_executemany = (\<lambda>q rws (w, received).
       (fst (cursor_executemany scripted q rws w),
        (snd (cursor_executemany scripted q rws w),
         received @ [ExecuteMany q rws (fst (cursor_executemany scripted q rws w))]))),
     cursor_fetch_pandas_all = (\<lambda>(w, received).
       (fst (cursor_fetch_pandas_all scripted w),
        (snd (cursor_fetch_pandas_all scripted w), received))),
     cursor_fetchall = (\<lambda>(w, received).
       (fst (cursor_fetchall scripted w), (snd (cursor_fetchall scripted w), received))),
     cursor_description = (\<lambda>(w, received). cursor_description scripted w),
     session_generate_new_action_id = (\<lambda>(w, received).
       (fst (session_generate_new_action_id scripted w),
        (snd (session_generate_new_action_id scripted w), received))),
     session_get_last_canceled_id = (\<lambda>(w, received). session_get_last_canceled_id scripted w),
     Utils_is_in_stored_procedure = False,
     Plan_wrap_exception = (\<lambda>ex. ex),
     quote_name = quote_name scripted\<rparr>"

definition recorded :: "world \<Rightarrow> (world \<times> event list) ServerConnection" where
  "recorded w =
    \<lparr>conn = (w, []),
     lower_case_parameters = Map.empty,
     query_listener = {},
     histories = (\<lambda>listener. []),
     trace = []\<rparr>"

section \<open>Properties of the type mapper\<close>

text \<open>
  Claim C4. For the logical name DECIMAL, or FIXED with a nonzero scale, the type
  mapper returns decimal(38,18) when precision and scale are both zero; otherwise, when
  the precision exceeds the maximum precision, the decimal with the maximum precision
  and the scale \<open>scale + precision - max_scale\<close>; otherwise decimal(precision, scale).
\<close>

theorem get_data_type_decimal:
  assumes "column_type_name = ''DECIMAL'' \<or> (column_type_name = ''FIXED'' \<and> scale \<noteq> 0)"
  shows "get_data_type MAX_PRECISION MAX_SCALE column_type_name precision scale =
    Inr (if precision = 0 \<and> scale = 0 then DecimalType 38 18
         else if precision > MAX_PRECISION
           then DecimalType MAX_PRECISION (scale + precision - MAX_SCALE)
         else DecimalType precision scale)"
  using assms by (auto simp: get_data_type_def)

theorem get_data_type_decimal_witness:
  "get_data_type 38 38 ''DECIMAL'' 0 0 = Inr (DecimalType 38 18)
   \<and> get_data_type 38 38 ''FIXED'' 40 2 = Inr (DecimalType 38 4)
   \<and> get_data_type 38 38 ''FIXED'' 10 2 = Inr (DecimalType 10 2)"
proof -
  have a: "''DECIMAL'' = ''DECIMAL'' \<or> (''DECIMAL'' = ''FIXED'' \<and> (0::int) \<noteq> 0)"
    by simp
  have b: "''FIXED'' = ''DECIMAL'' \<or> (''FIXED'' = ''FIXED'' \<and> (2::int) \<noteq> 0)"
    by simp
  show ?thesis
    using get_data_type_decimal [OF a, of 38 38 0]
      get_data_type_decimal [OF b, of 38 38 40]
      get_data_type_decimal [OF b, of 38 38 10]
    by simp
qed

section \<open>Lemmas on the engine and the executor\<close>

subsection \<open>Sequences of events\<close>

lemma advances_refl: "advances s [] s"
  by (auto simp: advances_def broadcasts_def fun_eq_iff)

lemma advances_trans:
  "advances s evs s' \<Longrightarrow> advances s' evs' s'' \<Longrightarrow> advances s (evs @ evs') s''"
  by (auto simp: advances_def broadcasts_def fun_eq_iff)

lemma advances_conn_left: "advances (s\<lparr>conn := w\<rparr>) evs s' = advances s evs s'"
  by (auto simp: advances_def fun_eq_iff)

lemma wrap_exception_closed:
  "conn_is_closed env (conn s) \<Longrightarrow> wrap_exception env func s = (Inl SERVER_SESSION_HAS_BEEN_CLOSED, s)"
  by (simp add: wrap_exception_def)

lemma wrap_exception_open:
  "\<not> conn_is_closed env (conn s) \<Longrightarrow>
   wrap_exception env func s =
     (case func s of (Inl ex, s') \<Rightarrow> (Inl (translate ex), s') | (Inr v, s') \<Rightarrow> (Inr v, s'))"
  by (simp add: wrap_exception_def)

lemma snd_wrap_exception_open:
  "\<not> conn_is_closed env (conn s) \<Longrightarrow> snd (wrap_exception env func s) = snd (func s)"
  by (simp add: wrap_exception_def split: prod.splits sum.splits)

lemma run_query_closed:
  "conn_is_closed env (conn s) \<Longrightarrow>
   run_query env q tp kw s = (Inl SERVER_SESSION_HAS_BEEN_CLOSED, s)"
  by (simp add: run_query_def wrap_exception_closed)

lemma run_query_advances:
  "\<not> conn_is_closed env (conn s) \<Longrightarrow>
   advances s [Execute q (fst (cursor_execute env q kw (conn s)))] (snd (run_query env q tp kw s))"
  unfolding run_query_def
  apply (simp add: snd_wrap_exception_open)
  apply (auto simp: Let_def advances_def broadcasts_def notify_query_listeners_def add_query_def fun_eq_iff split: prod.splits sum.splits connector_error.splits)
  done

lemma run_query_listeners_closed_or_open:
  "\<exists>evs. advances s evs (snd (run_query env q tp kw s))"
proof (cases "conn_is_closed env (conn s)")
  case True
  then show ?thesis using advances_refl by (auto simp: run_query_closed)
next
  case False
  then show ?thesis using run_query_advances by blast
qed

lemma run_batch_insert_closed:
  "conn_is_closed env (conn s) \<Longrightarrow>
   run_batch_insert env q rws kw s = (Inl SERVER_SESSION_HAS_BEEN_CLOSED, s)"
  by (simp add: run_batch_insert_def wrap_exception_closed)

lemma run_batch_insert_advances_open:
  "\<not> conn_is_closed env (conn s) \<Longrightarrow> \<exists>evs. advances s evs (snd (run_batch_insert env q rws kw s))"
  unfolding run_batch_insert_def
  apply (simp add: snd_wrap_exception_open)
  apply (auto simp: Let_def execute_and_notify_def advances_def broadcasts_def
      notify_query_listeners_def add_query_def fun_eq_iff split: prod.splits sum.splits option.splits)
  done

lemma run_batch_insert_advances:
  "\<exists>evs. advances s evs (snd (run_batch_insert env q rws kw s))"
proof (cases "conn_is_closed env (conn s)")
  case True
  then show ?thesis using advances_refl by (auto simp: run_batch_insert_closed)
next
  case False
  then show ?thesis by (rule run_batch_insert_advances_open)
qed

lemma run_post_actions_events:
  "run_post_actions env kw acts s = (fin, s') \<Longrightarrow>
   \<exists>evs. advances s evs s' \<and> map executed_sql evs = take (length evs) acts
     \<and> (fin = Inr () \<longrightarrow> map executed_sql evs = acts)"
proof (induction acts arbitrary: s)
  case Nil
  then show ?case using advances_refl [of s] by auto
next
  case (Cons action actions)
  show ?case
  proof (cases "conn_is_closed env (conn s)")
    case True
    with Cons.prems have "s' = s" and "fin = Inl SERVER_SESSION_HAS_BEEN_CLOSED"
      by (auto simp: run_query_closed)
    then show ?thesis using advances_refl [of s] by auto
  next
    case False
    obtain r s1 where rq: "run_query env action False kw s = (r, s1)"
      by (cases "run_query env action False kw s")
    define e where "e = Execute action (fst (cursor_execute env action kw (conn s)))"
    have adv: "advances s [e] s1"
      using run_query_advances [OF False, of action kw False] rq by (simp add: e_def)
    show ?thesis
    proof (cases r)
      case (Inl ex)
      with Cons.prems rq have "s' = s1" and "fin = Inl ex" by auto
      with adv show ?thesis by (intro exI [of _ "[e]"]) (simp add: e_def)
    next
      case (Inr v)
      with Cons.prems rq have "run_post_actions env kw actions s1 = (fin, s')" by simp
      from Cons.IH [OF this] obtain evs where
        "advances s1 evs s'" "map executed_sql evs = take (length evs) actions"
        "fin = Inr () \<longrightarrow> map executed_sql evs = actions"
        by blast
      with adv show ?thesis
        by (intro exI [of _ "e # evs"]) (auto simp: e_def dest: advances_trans)
    qed
  qed
qed

lemma run_statement_advances:
  "\<exists>evs. advances s evs (snd (run_statement env tp kw q vars s))"
proof (cases q)
  case (Query stmt holder)
  obtain ph r m where v: "vars = (ph, r, m)" by (cases vars)
  from run_query_listeners_closed_or_open [of s env "substitute ph stmt" tp kw]
  show ?thesis
    by (auto simp: run_statement_def Query v Let_def split: prod.splits sum.splits)
next
  case (BatchInsertQuery stmt holder rws)
  obtain ph r m where v: "vars = (ph, r, m)" by (cases vars)
  from run_batch_insert_advances [of s env stmt rws kw]
  show ?thesis
    by (auto simp: run_statement_def BatchInsertQuery v split: prod.splits sum.splits)
qed

lemma run_queries_advances:
  "\<exists>evs. advances s evs (snd (run_queries env aid tp kw qs vars s))"
proof (induction qs arbitrary: vars s)
  case Nil
  then show ?case using advances_refl [of s] by auto
next
  case (Cons q qs)
  obtain r s1 where st: "run_statement env tp kw q vars s = (r, s1)"
    by (cases "run_statement env tp kw q vars s")
  from run_statement_advances [of s env tp kw q vars] st
  obtain e1 where a1: "advances s e1 s1" by auto
  show ?case
  proof (cases r)
    case (Inl ex)
    with st a1 show ?thesis by auto
  next
    case (Inr vars')
    show ?thesis
    proof (cases "aid < session_get_last_canceled_id env (conn s1)")
      case True
      with st Inr a1 show ?thesis by auto
    next
      case False
      from Cons.IH [of s1 vars'] obtain e2 where
        "advances s1 e2 (snd (run_queries env aid tp kw qs vars' s1))" by blast
      with a1 have "advances s (e1 @ e2) (snd (run_queries env aid tp kw qs vars' s1))"
        by (rule advances_trans)
      with st Inr False show ?thesis by auto
    qed
  qed
qed

lemma run_queries_append:
  "run_queries env aid tp kw (pre @ rest) vars s =
    (case run_queries env aid tp kw pre vars s of
       (Inl ex, s') \<Rightarrow> (Inl ex, s')
     | (Inr vars', s') \<Rightarrow> run_queries env aid tp kw rest vars' s')"
  by (induction pre arbitrary: vars s) (auto split: prod.splits sum.splits)

lemma get_result_set_snd:
  assumes "session_generate_new_action_id env (conn s) = (action_id, w0)"
    and "run_queries env action_id to_pandas kw (queries plan) ([], None, None) (s\<lparr>conn := w0\<rparr>) = (body, s1)"
    and "run_post_actions env kw (post_actions plan) s1 = (fin, s2)"
  shows "get_result_set env plan to_pandas kw s =
    (case fin of
       Inl ex \<Rightarrow> Inl (Plan_wrap_exception env ex)
     | Inr u \<Rightarrow>
        (case body of
           Inl ex \<Rightarrow> Inl (Plan_wrap_exception env ex)
         | Inr (placeholders, result, result_meta) \<Rightarrow>
            (case result of
               None \<Rightarrow> Inl (Plan_wrap_exception env SQL_LAST_QUERY_RETURN_RESULTSET)
             | Some res \<Rightarrow> Inr (data res, result_meta))), s2)"
  using assms by (simp add: get_result_set_def split: sum.splits option.splits prod.splits)

lemma get_result_set_advances:
  "\<exists>evs. advances s evs (snd (get_result_set env plan to_pandas kw s))"
proof -
  obtain action_id w0 where gen: "session_generate_new_action_id env (conn s) = (action_id, w0)"
    by (cases "session_generate_new_action_id env (conn s)")
  obtain body s1 where body:
    "run_queries env action_id to_pandas kw (queries plan) ([], None, None) (s\<lparr>conn := w0\<rparr>) = (body, s1)"
    by (cases "run_queries env action_id to_pandas kw (queries plan) ([], None, None) (s\<lparr>conn := w0\<rparr>)")
  obtain fin s2 where fin: "run_post_actions env kw (post_actions plan) s1 = (fin, s2)"
    by (cases "run_post_actions env kw (post_actions plan) s1")
  from run_queries_advances [of "s\<lparr>conn := w0\<rparr>" env action_id to_pandas kw "queries plan" "([], None, None)"] body
  obtain e1 where "advances s e1 s1" by (auto simp: advances_conn_left)
  moreover from run_post_actions_events [OF fin] obtain e2 where "advances s1 e2 s2" by blast
  ultimately have "advances s (e1 @ e2) s2" by (rule advances_trans)
  moreover have "snd (get_result_set env plan to_pandas kw s) = s2"
    by (simp add: get_result_set_snd [OF gen body fin])
  ultimately show ?thesis by auto
qed


lemma run_queries_cancelled:
  assumes "run_queries env action_id to_pandas kw pre vars0 s0 = (Inr vars, sk)"
    and "run_statement env to_pandas kw q vars sk = (Inr vars', sq)"
    and "action_id < session_get_last_canceled_id env (conn sq)"
  shows "run_queries env action_id to_pandas kw (pre @ q # post) vars0 s0 =
    (Inl SERVER_QUERY_IS_CANCELLED, sq)"
  using assms by (simp add: run_queries_append)

lemma run_statement_batch_locals:
  "\<not> result_bearing q \<Longrightarrow> run_statement env to_pandas kw q vars s = (Inr vars', s') \<Longrightarrow> vars' = vars"
  by (cases q; cases vars) (auto simp: run_statement_def split: prod.splits sum.splits)

lemma run_queries_batch_locals:
  "\<forall>q\<in>set qs. \<not> result_bearing q \<Longrightarrow>
   run_queries env action_id to_pandas kw qs vars s = (Inr vars', s') \<Longrightarrow> vars' = vars"
proof (induction qs arbitrary: vars s)
  case Nil
  then show ?case by simp
next
  case (Cons q qs)
  obtain r s1 where st: "run_statement env to_pandas kw q vars s = (r, s1)"
    by (cases "run_statement env to_pandas kw q vars s")
  show ?case
  proof (cases r)
    case (Inl ex)
    with Cons.prems st show ?thesis by simp
  next
    case (Inr v)
    with st Cons.prems have "v = vars"
      by (auto dest: run_statement_batch_locals)
    with Cons.prems st Inr have "run_queries env action_id to_pandas kw qs vars s1 = (Inr vars', s')"
      by (simp split: if_splits)
    with Cons.IH [of vars s1] Cons.prems show ?thesis by simp
  qed
qed

text \<open>The equations that run the definitions on the scripted connector.\<close>

lemmas engine_simps = scripted_def quiet_def fresh_def failing_def cancelled_after_def
  two_selects_def select_then_insert_def insert_only_def run_statement_def run_query_def
  run_batch_insert_def execute_and_notify_def query_tag_of_def truthy_def
  wrap_exception_def substitute_def replace_def scripted_execute_def
  notify_query_listeners_def add_query_def Let_def

section \<open>The empty result\<close>

text \<open>
  Claim C5, as the code has it. For a plan with no result-bearing statement, when the
  statement loop completes (no statement raises, no cancellation) and every post-action
  succeeds, \<open>get_result_set\<close> raises \<open>SQL_LAST_QUERY_RETURN_RESULTSET\<close>, and by then every
  post-action has been executed exactly once, in order.
\<close>

theorem empty_result_after_post_actions:
  assumes "\<forall>q\<in>set (queries plan). \<not> result_bearing q"
    and "session_generate_new_action_id env (conn s) = (action_id, w0)"
    and "run_queries env action_id to_pandas kw (queries plan) ([], None, None) (s\<lparr>conn := w0\<rparr>) = (Inr vars, s1)"
    and "run_post_actions env kw (post_actions plan) s1 = (Inr (), s2)"
  shows "get_result_set env plan to_pandas kw s
      = (Inl (Plan_wrap_exception env SQL_LAST_QUERY_RETURN_RESULTSET), s2)
    \<and> (\<exists>evs. advances s1 evs s2 \<and> map executed_sql evs = post_actions plan)"
proof -
  have "vars = ([], None, None)"
    using run_queries_batch_locals [OF assms(1,3)] .
  then show ?thesis
    using run_post_actions_events [OF assms(4)]
    by (auto simp: get_result_set_snd [OF assms(2,3,4)])
qed

text \<open>A plan of one batch insert and one post-action, on a connection where all succeeds.\<close>

theorem empty_result_after_post_actions_witness:
  "fst (get_result_set scripted insert_only False Map.empty (fresh quiet))
     = Inl SQL_LAST_QUERY_RETURN_RESULTSET
   \<and> map executed_sql (trace (snd (get_result_set scripted insert_only False Map.empty
        (fresh quiet))))
     = [''insert into t values (?)'', ''drop a'']"
proof -
  define gen where "gen = session_generate_new_action_id scripted (conn (fresh quiet))"
  define body where "body = run_queries scripted (fst gen) False Map.empty
    (queries insert_only) ([], None, None) ((fresh quiet)\<lparr>conn := snd gen\<rparr>)"
  define fin where
    "fin = run_post_actions scripted Map.empty (post_actions insert_only) (snd body)"
  have h1: "\<forall>q\<in>set (queries insert_only). \<not> result_bearing q"
    by (simp add: insert_only_def)
  have h2: "session_generate_new_action_id scripted (conn (fresh quiet)) = (fst gen, snd gen)"
    by (simp add: gen_def)
  have "fst body = Inr ([], None, None)"
    by (simp add: body_def gen_def engine_simps)
  then have h3: "run_queries scripted (fst gen) False Map.empty (queries insert_only)
      ([], None, None) ((fresh quiet)\<lparr>conn := snd gen\<rparr>) = (Inr ([], None, None), snd body)"
    unfolding body_def [symmetric] by (simp add: prod_eq_iff)
  have "fst fin = Inr ()"
    by (simp add: fin_def body_def gen_def engine_simps)
  then have h4: "run_post_actions scripted Map.empty (post_actions insert_only) (snd body)
      = (Inr (), snd fin)"
    unfolding fin_def [symmetric] by (simp add: prod_eq_iff)
  note inst = empty_result_after_post_actions [OF h1 h2 h3 h4]
  have tb: "map executed_sql (trace (snd body)) = [''insert into t values (?)'']"
    by (simp add: body_def gen_def engine_simps)
  have pw: "Plan_wrap_exception scripted = (\<lambda>ex. ex)"
    by (simp add: scripted_def)
  have pa: "post_actions insert_only = [''drop a'']"
    by (simp add: insert_only_def)
  from inst obtain evs where "advances (snd body) evs (snd fin)"
    "map executed_sql evs = post_actions insert_only"
    "get_result_set scripted insert_only False Map.empty (fresh quiet)
       = (Inl SQL_LAST_QUERY_RETURN_RESULTSET, snd fin)"
    by (auto simp: pw)
  then show ?thesis
    using tb by (simp add: advances_def pa)
qed

text \<open>
  A plan with no result-bearing statement does not always raise the empty-result error:
  when the post-action raises, its error surfaces.
\<close>

theorem empty_result_counterexample:
  "queries insert_only
     = [BatchInsertQuery ''insert into t values (?)'' ''T1'' [[''a''], [''b'']]]
   \<and> fst (get_result_set scripted insert_only False Map.empty
        (fresh (failing ''drop a'' ''cleanup'' quiet)))
     = Inl (Raised (OtherException ''cleanup''))"
  by (simp add: get_result_set_def engine_simps)

section \<open>The batch insert, the guard and the fetch\<close>

lemma run_batch_insert_events:
  assumes "\<not> conn_is_closed env (conn s)"
  shows "\<exists>evs. trace (snd (run_batch_insert env q rws kw s)) = trace s @ evs
    \<and> (case query_tag_of env kw of
          None \<Rightarrow> evs = [ExecuteMany q rws (fst (cursor_executemany env q rws (conn s)))]
        | Some t \<Rightarrow>
           if t = [] then evs = [ExecuteMany q rws (fst (cursor_executemany env q rws (conn s)))]
           else \<exists>rest. evs = Execute (set_query_tag t)
                    (fst (cursor_execute env (set_query_tag t) Map.empty (conn s))) # rest
                  \<and> set (map executed_sql rest) \<subseteq> {q, ''alter session unset query_tag''})"
  using assms unfolding run_batch_insert_def
  apply (simp add: snd_wrap_exception_open)
  apply (auto simp: Let_def execute_and_notify_def set_query_tag_def truthy_def
      notify_query_listeners_def add_query_def split: prod.splits sum.splits option.splits)
  done

text \<open>
  Claim C10. Outside a stored procedure, for a query tag requested in
  \<open>_statement_params\<close>, the statement that sets the tag is the text
  \<open>alter session set query_tag='\<close>, the tag as it is, and \<open>'\<close>: no character of the tag
  is escaped. It is the first statement executed, and the other statements of the call
  are the insert and the statement that unsets the tag. For the empty tag, which
  Python takes as false, no tag statement is executed.
\<close>

theorem tag_set_statement_verbatim:
  assumes "\<not> conn_is_closed env (conn s)"
    and "kw ''_statement_params'' = Some statement_params"
    and "statement_params ''QUERY_TAG'' = Some tag"
    and "\<not> Utils_is_in_stored_procedure env"
  shows "(tag \<noteq> [] \<longrightarrow>
      (\<exists>rest. trace (snd (run_batch_insert env q rws kw s)) =
         trace s @ Execute (''alter session set query_tag='' @ [CHR 0x27] @ tag @ [CHR 0x27])
           (fst (cursor_execute env
              (''alter session set query_tag='' @ [CHR 0x27] @ tag @ [CHR 0x27])
              Map.empty (conn s))) # rest
         \<and> set (map executed_sql rest) \<subseteq> {q, ''alter session unset query_tag''}))
    \<and> (tag = [] \<longrightarrow>
      trace (snd (run_batch_insert env q rws kw s)) =
        trace s @ [ExecuteMany q rws (fst (cursor_executemany env q rws (conn s)))])"
proof -
  have "query_tag_of env kw = Some tag"
    using assms(2,3,4) by (simp add: query_tag_of_def)
  with run_batch_insert_events [OF assms(1), of q rws kw] show ?thesis
    by (auto simp: set_query_tag_def)
qed

text \<open>A tag with a single quote in it is embedded as it is.\<close>

theorem tag_set_statement_verbatim_witness:
  "map executed_sql (trace (snd (run_batch_insert scripted ''insert into t values (?)'' [[''a'']]
      [''_statement_params'' \<mapsto> [''QUERY_TAG'' \<mapsto> ''it's'']] (fresh quiet))))
    = [''alter session set query_tag='' @ [CHR 0x27] @ ''it's'' @ [CHR 0x27],
       ''insert into t values (?)'', ''alter session unset query_tag'']"
proof -
  define kw :: kwargs where "kw = [''_statement_params'' \<mapsto> [''QUERY_TAG'' \<mapsto> ''it's'']]"
  define s' where "s' = snd (run_batch_insert scripted ''insert into t values (?)'' [[''a'']] kw
    (fresh quiet))"
  have h1: "\<not> conn_is_closed scripted (conn (fresh quiet))"
    by (simp add: engine_simps)
  have h2: "kw ''_statement_params'' = Some [''QUERY_TAG'' \<mapsto> ''it's'']"
    by (simp add: kw_def)
  have h3: "[''QUERY_TAG'' \<mapsto> ''it's''] ''QUERY_TAG'' = Some ''it's''"
    by simp
  have h4: "\<not> Utils_is_in_stored_procedure scripted"
    by (simp add: scripted_def)
  have ne: "''it's'' \<noteq> []"
    by simp
  from tag_set_statement_verbatim [where env = scripted and s = "fresh quiet" and kw = kw
      and statement_params = "[''QUERY_TAG'' \<mapsto> ''it's'']" and tag = "''it's''"
      and q = "''insert into t values (?)''" and rws = "[[''a'']]", OF h1 h2 h3 h4] ne
  obtain rest where t: "trace s' = trace (fresh quiet) @
      Execute (''alter session set query_tag='' @ [CHR 0x27] @ ''it's'' @ [CHR 0x27])
        (fst (cursor_execute scripted
          (''alter session set query_tag='' @ [CHR 0x27] @ ''it's'' @ [CHR 0x27])
          Map.empty (conn (fresh quiet)))) # rest"
    unfolding s'_def by blast
  have "length (trace s') = 3"
    "map executed_sql (tl (trace s')) = [''insert into t values (?)'', ''alter session unset query_tag'']"
    by (simp_all add: s'_def kw_def engine_simps)
  with t show ?thesis
    unfolding s'_def [symmetric] kw_def [symmetric] by (simp add: fresh_def)
qed

lemma translate_other:
  "\<forall>cause. ex \<noteq> Raised (ReauthenticationRequest cause) \<Longrightarrow> translate ex = ex"
  by (cases ex rule: translate.cases) auto

text \<open>
  Claim C7, as the code has it. The operations under \<open>_Decorator.wrap_exception\<close>
  (\<open>get_session_id\<close>, \<open>run_query\<close>, \<open>run_batch_insert\<close>, and any body \<open>func\<close>
  under the decorator) first check the connection and raise
  \<open>SERVER_SESSION_HAS_BEEN_CLOSED\<close>, leaving the state as it is, when it is closed; on
  an open connection a \<open>ReauthenticationRequest\<close> that leaves the body becomes
  \<open>SERVER_SESSION_EXPIRED\<close> with its cause, and every other exception and every result
  is passed on unchanged. \<open>get_default_database\<close> and \<open>get_default_schema\<close> are not
  under the decorator: they answer from the connection parameters, whether the
  connection is closed or not.
\<close>

theorem guarded_operations:
  "(conn_is_closed env (conn s) \<longrightarrow>
       wrap_exception env func s = (Inl SERVER_SESSION_HAS_BEEN_CLOSED, s)
     \<and> get_session_id env s = (Inl SERVER_SESSION_HAS_BEEN_CLOSED, s)
     \<and> run_query env q to_pandas kw s = (Inl SERVER_SESSION_HAS_BEEN_CLOSED, s)
     \<and> run_batch_insert env q rws kw s = (Inl SERVER_SESSION_HAS_BEEN_CLOSED, s))
   \<and> (\<not> conn_is_closed env (conn s) \<longrightarrow>
       (\<forall>cause s'. func s = (Inl (Raised (ReauthenticationRequest cause)), s') \<longrightarrow>
          wrap_exception env func s = (Inl (SERVER_SESSION_EXPIRED cause), s'))
     \<and> (\<forall>ex s'. func s = (Inl ex, s') \<and> (\<forall>cause. ex \<noteq> Raised (ReauthenticationRequest cause)) \<longrightarrow>
          wrap_exception env func s = (Inl ex, s'))
     \<and> (\<forall>v s'. func s = (Inr v, s') \<longrightarrow> wrap_exception env func s = (Inr v, s'))
     \<and> (\<forall>cause. fst (cursor_execute env q kw (conn s)) = Inl (ReauthenticationRequest cause) \<longrightarrow>
          fst (run_query env q to_pandas kw s) = Inl (SERVER_SESSION_EXPIRED cause))
     \<and> (\<forall>ex. fst (cursor_execute env q kw (conn s)) = Inl ex
            \<and> (\<forall>cause. ex \<noteq> ReauthenticationRequest cause) \<longrightarrow>
          fst (run_query env q to_pandas kw s) = Inl (Raised ex)))
   \<and> get_default_database env s
       = (Inr (map_option (quote_name env) (lower_case_parameters s ''database'')), s)
   \<and> get_default_schema env s
       = (Inr (map_option (quote_name env) (lower_case_parameters s ''schema'')), s)"
proof -
  note t = translate_other
  have a: "conn_is_closed env (conn s) \<longrightarrow>
       wrap_exception env func s = (Inl SERVER_SESSION_HAS_BEEN_CLOSED, s)
     \<and> get_session_id env s = (Inl SERVER_SESSION_HAS_BEEN_CLOSED, s)
     \<and> run_query env q to_pandas kw s = (Inl SERVER_SESSION_HAS_BEEN_CLOSED, s)
     \<and> run_batch_insert env q rws kw s = (Inl SERVER_SESSION_HAS_BEEN_CLOSED, s)"
    by (simp add: wrap_exception_closed run_query_closed run_batch_insert_closed get_session_id_def)
  have b: "\<not> conn_is_closed env (conn s) \<longrightarrow>
       (\<forall>cause s'. func s = (Inl (Raised (ReauthenticationRequest cause)), s') \<longrightarrow>
          wrap_exception env func s = (Inl (SERVER_SESSION_EXPIRED cause), s'))
     \<and> (\<forall>ex s'. func s = (Inl ex, s') \<and> (\<forall>cause. ex \<noteq> Raised (ReauthenticationRequest cause)) \<longrightarrow>
          wrap_exception env func s = (Inl ex, s'))
     \<and> (\<forall>v s'. func s = (Inr v, s') \<longrightarrow> wrap_exception env func s = (Inr v, s'))"
    by (auto simp: wrap_exception_open t)
  have c: "\<not> conn_is_closed env (conn s) \<longrightarrow>
       (\<forall>cause. fst (cursor_execute env q kw (conn s)) = Inl (ReauthenticationRequest cause) \<longrightarrow>
          fst (run_query env q to_pandas kw s) = Inl (SERVER_SESSION_EXPIRED cause))"
    by (auto simp: run_query_def wrap_exception_open Let_def split: prod.splits)
  have d: "\<not> conn_is_closed env (conn s) \<longrightarrow>
       (\<forall>ex. fst (cursor_execute env q kw (conn s)) = Inl ex
            \<and> (\<forall>cause. ex \<noteq> ReauthenticationRequest cause) \<longrightarrow>
          fst (run_query env q to_pandas kw s) = Inl (Raised ex))"
    by (auto simp: run_query_def wrap_exception_open Let_def t split: prod.splits)
  have e: "get_default_database env s
       = (Inr (map_option (quote_name env) (lower_case_parameters s ''database'')), s)"
     "get_default_schema env s
       = (Inr (map_option (quote_name env) (lower_case_parameters s ''schema'')), s)"
    by (simp_all add: get_default_database_def get_default_schema_def split: option.splits)
  from a b c d e show ?thesis by blast
qed

text \<open>A closed connection, an expired session and an ordinary failure of \<open>run_query\<close>.\<close>

theorem guarded_operations_witness:
  "fst (run_query scripted ''select 1'' False Map.empty (fresh (quiet\<lparr>w_closed := True\<rparr>)))
     = Inl SERVER_SESSION_HAS_BEEN_CLOSED
   \<and> fst (run_query scripted ''select 1'' False Map.empty
       (fresh (quiet\<lparr>w_fails := (\<lambda>stmt. Some (ReauthenticationRequest ''token''))\<rparr>)))
     = Inl (SERVER_SESSION_EXPIRED ''token'')
   \<and> fst (run_query scripted ''select 1'' False Map.empty
       (fresh (failing ''select 1'' ''boom'' quiet)))
     = Inl (Raised (OtherException ''boom''))"
proof -
  define w1 where "w1 = quiet\<lparr>w_closed := True\<rparr>"
  define w2 where "w2 = quiet\<lparr>w_fails := (\<lambda>stmt. Some (ReauthenticationRequest ''token''))\<rparr>"
  define w3 where "w3 = failing ''select 1'' ''boom'' quiet"
  have c1: "conn_is_closed scripted (conn (fresh w1))"
    by (simp add: w1_def engine_simps)
  have c2: "\<not> conn_is_closed scripted (conn (fresh w2))"
    "fst (cursor_execute scripted ''select 1'' Map.empty (conn (fresh w2)))
       = Inl (ReauthenticationRequest ''token'')"
    by (simp_all add: w2_def engine_simps)
  have c3: "\<not> conn_is_closed scripted (conn (fresh w3))"
    "fst (cursor_execute scripted ''select 1'' Map.empty (conn (fresh w3)))
       = Inl (OtherException ''boom'')"
    by (simp_all add: w3_def engine_simps)
  from c1 guarded_operations [where env = scripted and s = "fresh w1" and q = "''select 1''"
      and to_pandas = False and kw = Map.empty and rws = "[]"
      and func = "\<lambda>s. (Inr (), s)"]
  have r1: "fst (run_query scripted ''select 1'' False Map.empty (fresh w1))
      = Inl SERVER_SESSION_HAS_BEEN_CLOSED"
    by simp
  from c2 guarded_operations [where env = scripted and s = "fresh w2" and q = "''select 1''"
      and to_pandas = False and kw = Map.empty and rws = "[]"
      and func = "\<lambda>s. (Inr (), s)"]
  have r2: "fst (run_query scripted ''select 1'' False Map.empty (fresh w2))
      = Inl (SERVER_SESSION_EXPIRED ''token'')"
    by simp
  from c3 guarded_operations [where env = scripted and s = "fresh w3" and q = "''select 1''"
      and to_pandas = False and kw = Map.empty and rws = "[]"
      and func = "\<lambda>s. (Inr (), s)"]
  have r3: "fst (run_query scripted ''select 1'' False Map.empty (fresh w3))
      = Inl (Raised (OtherException ''boom''))"
    by simp
  from r1 r2 r3 show ?thesis
    unfolding w1_def w2_def w3_def by simp
qed

text \<open>On a closed connection, \<open>get_default_database\<close> and \<open>get_default_schema\<close> return.\<close>

theorem unguarded_operation_counterexample:
  "conn_is_closed scripted
     (conn ((fresh (quiet\<lparr>w_closed := True\<rparr>))\<lparr>lower_case_parameters := [''database'' \<mapsto> ''db'']\<rparr>))
   \<and> fst (get_default_database scripted
       ((fresh (quiet\<lparr>w_closed := True\<rparr>))\<lparr>lower_case_parameters := [''database'' \<mapsto> ''db'']\<rparr>))
     = Inr (Some (quote_name scripted ''db''))
   \<and> fst (get_default_schema scripted
       ((fresh (quiet\<lparr>w_closed := True\<rparr>))\<lparr>lower_case_parameters := [''database'' \<mapsto> ''db'']\<rparr>))
     = Inr None"
  by (simp add: get_default_database_def get_default_schema_def engine_simps)

text \<open>
  Claim C8, as the code has it. When a tabular fetch is requested on an open connection
  and the statement has executed: a \<open>NotSupportedError\<close> of \<open>fetch_pandas_all\<close> is
  recovered by \<open>fetchall\<close>, whose rows are returned and whose failure, if it fails, is
  raised as it is (through the guard); \<open>SERVER_FAILED_FETCH_PANDAS\<close> is raised exactly
  when \<open>fetch_pandas_all\<close> itself fails with an error other than \<open>NotSupportedError\<close>,
  with the text of that error.
\<close>

theorem pandas_fetch_fallback:
  assumes "\<not> conn_is_closed env (conn s)"
    and "cursor_execute env q kw (conn s) = (Inr c, w1)"
    and "cursor_fetch_pandas_all env w1 = (p, w2)"
    and "cursor_fetchall env w2 = (f, w3)"
  shows "(\<forall>d. p = Inr d \<longrightarrow> fst (run_query env q True kw s) = Inr (ResultDict d (sfqid c)))
    \<and> (\<forall>m d. p = Inl (NotSupportedError m) \<and> f = Inr d \<longrightarrow>
          fst (run_query env q True kw s) = Inr (ResultDict d (sfqid c)))
    \<and> (\<forall>m ex. p = Inl (NotSupportedError m) \<and> f = Inl ex \<longrightarrow>
          fst (run_query env q True kw s) = Inl (translate (Raised ex)))
    \<and> (\<forall>ex. p = Inl ex \<and> (\<forall>m. ex \<noteq> NotSupportedError m) \<longrightarrow>
          fst (run_query env q True kw s) = Inl (SERVER_FAILED_FETCH_PANDAS (str_of ex)))
    \<and> ((\<exists>msg. fst (run_query env q True kw s) = Inl (SERVER_FAILED_FETCH_PANDAS msg))
          \<longleftrightarrow> (\<exists>ex. p = Inl ex \<and> (\<forall>m. ex \<noteq> NotSupportedError m)))"
proof -
  have t: "translate (Raised ex) \<noteq> SERVER_FAILED_FETCH_PANDAS msg" for ex msg
    by (cases ex) auto
  have r: "fst (run_query env q True kw s) =
    (case p of
       Inr d \<Rightarrow> Inr (ResultDict d (sfqid c))
     | Inl (NotSupportedError m) \<Rightarrow>
        (case f of Inr d \<Rightarrow> Inr (ResultDict d (sfqid c)) | Inl ex \<Rightarrow> Inl (translate (Raised ex)))
     | Inl ex \<Rightarrow> Inl (SERVER_FAILED_FETCH_PANDAS (str_of ex)))"
    using assms
    by (simp add: run_query_def wrap_exception_open Let_def notify_query_listeners_def add_query_def
        split: sum.splits connector_error.splits)
  show ?thesis
    unfolding r using t
    by (auto split: sum.splits connector_error.splits)
qed

text \<open>A statement that is not a select falls back to rows; a failing tabular fetch is fatal.\<close>

theorem pandas_fetch_fallback_witness:
  "fst (run_query scripted ''create table t (a int)'' True Map.empty
      (fresh (quiet\<lparr>w_pandas := Some (NotSupportedError ''not a select'')\<rparr>)))
     = Inr (ResultDict (Rows [[''1'']]) ''id:create table t (a int)'')
   \<and> fst (run_query scripted ''select 1'' True Map.empty
      (fresh (quiet\<lparr>w_pandas := Some (OtherException ''arrow'')\<rparr>)))
     = Inl (SERVER_FAILED_FETCH_PANDAS ''arrow'')"
proof -
  define w where "w = quiet\<lparr>w_pandas := Some (NotSupportedError ''not a select'')\<rparr>"
  define v where "v = quiet\<lparr>w_pandas := Some (OtherException ''arrow'')\<rparr>"
  have w1: "\<not> conn_is_closed scripted (conn (fresh w))"
    by (simp add: w_def engine_simps)
  have w2: "cursor_execute scripted ''create table t (a int)'' Map.empty (conn (fresh w))
      = (Inr (Cursor ''id:create table t (a int)'' ''create table t (a int)''),
         w\<lparr>w_executed := 1\<rparr>)"
    by (simp add: w_def engine_simps)
  have w3: "cursor_fetch_pandas_all scripted (w\<lparr>w_executed := 1\<rparr>)
      = (Inl (NotSupportedError ''not a select''), w\<lparr>w_executed := 1\<rparr>)"
    by (simp add: w_def engine_simps)
  have w4: "cursor_fetchall scripted (w\<lparr>w_executed := 1\<rparr>)
      = (Inr (Rows [[''1'']]), w\<lparr>w_executed := 1\<rparr>)"
    by (simp add: w_def engine_simps)
  from pandas_fetch_fallback [OF w1 w2 w3 w4]
  have r1: "fst (run_query scripted ''create table t (a int)'' True Map.empty (fresh w))
      = Inr (ResultDict (Rows [[''1'']]) ''id:create table t (a int)'')"
    by simp
  have v1: "\<not> conn_is_closed scripted (conn (fresh v))"
    by (simp add: v_def engine_simps)
  have v2: "cursor_execute scripted ''select 1'' Map.empty (conn (fresh v))
      = (Inr (Cursor ''id:select 1'' ''select 1''), v\<lparr>w_executed := 1\<rparr>)"
    by (simp add: v_def engine_simps)
  have v3: "cursor_fetch_pandas_all scripted (v\<lparr>w_executed := 1\<rparr>)
      = (Inl (OtherException ''arrow''), v\<lparr>w_executed := 1\<rparr>)"
    by (simp add: v_def engine_simps)
  have v4: "cursor_fetchall scripted (v\<lparr>w_executed := 1\<rparr>)
      = (Inr (Rows [[''1'']]), v\<lparr>w_executed := 1\<rparr>)"
    by (simp add: v_def engine_simps)
  from pandas_fetch_fallback [OF v1 v2 v3 v4]
  have r2: "fst (run_query scripted ''select 1'' True Map.empty (fresh v))
      = Inl (SERVER_FAILED_FETCH_PANDAS ''arrow'')"
    by simp
  from r1 r2 show ?thesis
    unfolding w_def v_def by simp
qed

text \<open>
  The fallback fails and \<open>SERVER_FAILED_FETCH_PANDAS\<close> is not raised; the tabular fetch
  fails with another error and it is raised, with no fallback that failed.
\<close>

theorem fetch_failed_counterexample:
  "fst (run_query scripted ''create table t (a int)'' True Map.empty
      (fresh (quiet\<lparr>w_pandas := Some (NotSupportedError ''not a select''),
                     w_rows := Some (OtherException ''connection reset'')\<rparr>)))
     = Inl (Raised (OtherException ''connection reset''))
   \<and> fst (run_query scripted ''select 1'' True Map.empty
      (fresh (quiet\<lparr>w_pandas := Some (OtherException ''arrow''), w_rows := None\<rparr>)))
     = Inl (SERVER_FAILED_FETCH_PANDAS ''arrow'')"
  by (simp add: engine_simps)

section \<open>The substitution of placeholders\<close>

lemma replace_from_skip:
  "replace_from old new k xs = replace_from old new 0 (drop k xs)"
  by (induction old new k xs rule: replace_from.induct) auto

lemma replace_from_absent:
  "old \<noteq> [] \<Longrightarrow> first_occurrence old xs = None \<Longrightarrow> replace_from old new 0 xs = xs"
  by (induction xs) (auto split: if_splits)

lemma replace_from_first:
  "old \<noteq> [] \<Longrightarrow> first_occurrence old xs = Some n \<Longrightarrow>
   replace_from old new 0 xs
     = take n xs @ new @ replace_from old new 0 (drop (n + length old) xs)"
proof (induction xs arbitrary: n)
  case Nil
  then show ?case by simp
next
  case (Cons c cs)
  show ?case
  proof (cases "take (length old) (c # cs) = old")
    case True
    with Cons.prems have "n = 0" by simp
    moreover from Cons.prems(1) obtain k where "length old = Suc k"
      by (cases old) auto
    ultimately show ?thesis
      using True replace_from_skip [of old new k cs] by simp
  next
    case False
    with Cons.prems obtain m where "first_occurrence old cs = Some m" "n = Suc m"
      by auto
    with Cons.IH [OF Cons.prems(1), of m] False show ?thesis by simp
  qed
qed

lemma replace_absent:
  "old \<noteq> [] \<Longrightarrow> first_occurrence old xs = None \<Longrightarrow> replace xs old new = xs"
  by (simp add: replace_def replace_from_absent)

lemma replace_first:
  "old \<noteq> [] \<Longrightarrow> first_occurrence old xs = Some n \<Longrightarrow>
   replace xs old new = take n xs @ new @ replace (drop (n + length old) xs) old new"
  by (simp add: replace_def replace_from_first)

lemma first_occurrence_Some:
  "first_occurrence old xs = Some n \<Longrightarrow> take (length old) (drop n xs) = old"
  by (induction xs arbitrary: n) (auto split: if_splits)

lemma run_query_result:
  assumes "run_query env q to_pandas kw s = (Inr res, s')"
  shows "\<not> conn_is_closed env (conn s)
    \<and> (\<exists>c. fst (cursor_execute env q kw (conn s)) = Inr c \<and> result_sfqid res = sfqid c)"
proof -
  from assms have opn: "\<not> conn_is_closed env (conn s)"
    by (auto simp: run_query_closed)
  with assms show ?thesis
    by (auto simp: run_query_def wrap_exception_open Let_def
        split: prod.splits sum.splits connector_error.splits if_splits)
qed

lemma run_statement_query_trace:
  assumes "\<not> conn_is_closed env (conn s)"
  shows "trace (snd (run_statement env to_pandas kw (Query stmt holder) (ph, r, m) s))
    = trace s @ [Execute (substitute ph stmt)
        (fst (cursor_execute env (substitute ph stmt) kw (conn s)))]"
proof -
  have "snd (run_statement env to_pandas kw (Query stmt holder) (ph, r, m) s)
      = snd (run_query env (substitute ph stmt) to_pandas kw s)"
    by (simp add: run_statement_def Let_def split: prod.splits sum.splits)
  with run_query_advances [OF assms, of "substitute ph stmt" kw to_pandas]
  show ?thesis by (simp add: advances_def)
qed

lemma run_statement_query_binds:
  assumes "run_statement env to_pandas kw (Query stmt holder) (ph, r, m) s = (Inr vars', s')"
  shows "\<exists>c. fst (cursor_execute env (substitute ph stmt) kw (conn s)) = Inr c
    \<and> fst vars' = AList.update holder (sfqid c) ph"
proof -
  from assms obtain res where
    "run_query env (substitute ph stmt) to_pandas kw s = (Inr res, s')"
    "fst vars' = AList.update holder (result_sfqid res) ph"
    by (auto simp: run_statement_def Let_def split: prod.splits sum.splits)
  with run_query_result [of env "substitute ph stmt" to_pandas kw s res s']
  show ?thesis by auto
qed

lemma run_batch_insert_success:
  assumes "run_batch_insert env q rws kw s = (Inr u, s')"
  shows "\<exists>c. filter batch_event (drop (length (trace s)) (trace s'))
    = [ExecuteMany q rws (Inr c)]"
proof -
  from assms have opn: "\<not> conn_is_closed env (conn s)"
    by (auto simp: run_batch_insert_closed)
  from assms show ?thesis
    unfolding run_batch_insert_def wrap_exception_open [OF opn]
    by (auto simp: Let_def execute_and_notify_def notify_query_listeners_def add_query_def
        split: prod.splits sum.splits option.splits if_splits)
qed

lemma run_queries_single:
  "run_queries env action_id to_pandas kw [q] vars s = (Inr vars', s') \<Longrightarrow>
   run_statement env to_pandas kw q vars s = (Inr vars', s')"
  by (auto split: prod.splits sum.splits if_splits)

lemma run_queries_first_event:
  assumes "trace (snd (run_statement env to_pandas kw q vars s)) = trace s @ [e]"
  shows "\<exists>rest. trace (snd (run_queries env action_id to_pandas kw (q # post) vars s))
    = trace s @ e # rest"
proof -
  obtain r s1 where st: "run_statement env to_pandas kw q vars s = (r, s1)"
    by (cases "run_statement env to_pandas kw q vars s")
  with assms have t1: "trace s1 = trace s @ [e]" by simp
  show ?thesis
  proof (cases r)
    case (Inl ex)
    with st t1 show ?thesis by simp
  next
    case (Inr vars')
    show ?thesis
    proof (cases "action_id < session_get_last_canceled_id env (conn s1)")
      case True
      with st Inr t1 show ?thesis by simp
    next
      case False
      from run_queries_advances [of s1 env action_id to_pandas kw post vars']
      obtain evs where "trace (snd (run_queries env action_id to_pandas kw post vars' s1))
          = trace s1 @ evs"
        by (auto simp: advances_def)
      with st Inr False t1 show ?thesis by simp
    qed
  qed
qed

text \<open>
  Claim C3, as the code has it. When the statements before it have completed and the
  connection is open, a statement that is not a batch insert is executed with the text
  \<open>substitute placeholders stmt\<close>, where \<open>placeholders\<close> holds the bindings made so
  far; when it completes, its placeholder token is bound to the statement id that the
  server returned for it. A batch insert is executed with its text and rows as they
  are, without substitution, and binds nothing. \<open>substitute\<close> replaces one token after
  the other, in the order of the bindings; replacing a token leaves a text without the
  token as it is, and in a text with the token it keeps what is before the leftmost
  occurrence, puts the id in its place, and goes on in the same way after it.
\<close>

theorem placeholders_are_substituted:
  assumes "run_queries env action_id to_pandas kw pre ([], None, None) s0
      = (Inr (placeholders, result, result_meta), sk)"
    and "\<not> conn_is_closed env (conn sk)"
  shows "(\<exists>rest. trace (snd (run_queries env action_id to_pandas kw
              (pre @ Query stmt holder # post) ([], None, None) s0))
            = trace sk @ Execute (substitute placeholders stmt)
                (fst (cursor_execute env (substitute placeholders stmt) kw (conn sk))) # rest)
    \<and> (\<forall>vars' s'. run_queries env action_id to_pandas kw (pre @ [Query stmt holder])
              ([], None, None) s0 = (Inr vars', s') \<longrightarrow>
          (\<exists>c. fst (cursor_execute env (substitute placeholders stmt) kw (conn sk)) = Inr c
             \<and> fst vars' = AList.update holder (sfqid c) placeholders))
    \<and> (\<forall>vars' s'. run_queries env action_id to_pandas kw (pre @ [BatchInsertQuery stmt holder rws])
              ([], None, None) s0 = (Inr vars', s') \<longrightarrow>
          vars' = (placeholders, result, result_meta)
          \<and> (\<exists>c. filter batch_event (drop (length (trace sk)) (trace s'))
                = [ExecuteMany stmt rws (Inr c)]))
    \<and> substitute [] stmt = stmt
    \<and> substitute (placeholders @ [(token, ident)]) stmt
        = replace (substitute placeholders stmt) token ident
    \<and> (token \<noteq> [] \<and> first_occurrence token stmt = None \<longrightarrow> replace stmt token ident = stmt)
    \<and> (\<forall>n. token \<noteq> [] \<and> first_occurrence token stmt = Some n \<longrightarrow>
          replace stmt token ident
            = take n stmt @ ident @ replace (drop (n + length token) stmt) token ident)"
proof -
  let ?vars = "(placeholders, result, result_meta)"
  have a: "\<exists>rest. trace (snd (run_queries env action_id to_pandas kw
              (pre @ Query stmt holder # post) ([], None, None) s0))
            = trace sk @ Execute (substitute placeholders stmt)
                (fst (cursor_execute env (substitute placeholders stmt) kw (conn sk))) # rest"
    using run_queries_first_event [OF run_statement_query_trace [OF assms(2)]] assms(1)
    by (simp add: run_queries_append)
  have b: "\<exists>c. fst (cursor_execute env (substitute placeholders stmt) kw (conn sk)) = Inr c
             \<and> fst vars' = AList.update holder (sfqid c) placeholders"
    if "run_queries env action_id to_pandas kw (pre @ [Query stmt holder])
              ([], None, None) s0 = (Inr vars', s')" for vars' s'
  proof -
    from that assms(1)
    have "run_queries env action_id to_pandas kw [Query stmt holder] ?vars sk = (Inr vars', s')"
      by (simp add: run_queries_append)
    then have "run_statement env to_pandas kw (Query stmt holder) ?vars sk = (Inr vars', s')"
      by (rule run_queries_single)
    then show ?thesis by (rule run_statement_query_binds)
  qed
  have c: "vars' = ?vars
          \<and> (\<exists>c. filter batch_event (drop (length (trace sk)) (trace s'))
                = [ExecuteMany stmt rws (Inr c)])"
    if "run_queries env action_id to_pandas kw (pre @ [BatchInsertQuery stmt holder rws])
              ([], None, None) s0 = (Inr vars', s')" for vars' s'
  proof -
    from that assms(1)
    have "run_queries env action_id to_pandas kw [BatchInsertQuery stmt holder rws] ?vars sk
        = (Inr vars', s')"
      by (simp add: run_queries_append)
    then have st: "run_statement env to_pandas kw (BatchInsertQuery stmt holder rws) ?vars sk
        = (Inr vars', s')"
      by (rule run_queries_single)
    have "vars' = ?vars"
      using run_statement_batch_locals [OF _ st] by simp
    moreover from st obtain u where "run_batch_insert env stmt rws kw sk = (Inr u, s')"
      by (auto simp: run_statement_def split: prod.splits sum.splits)
    then have "\<exists>c. filter batch_event (drop (length (trace sk)) (trace s'))
        = [ExecuteMany stmt rws (Inr c)]"
      by (rule run_batch_insert_success)
    ultimately show ?thesis by simp
  qed
  have d: "substitute [] stmt = stmt"
    "substitute (placeholders @ [(token, ident)]) stmt
        = replace (substitute placeholders stmt) token ident"
    by (simp_all add: substitute_def)
  from a b c d replace_absent [of token stmt ident] replace_first [of token stmt _ ident]
  show ?thesis by blast
qed

text \<open>
  The second of two statements names the token of the first twice; both occurrences are
  replaced by the id returned for the first.
\<close>

theorem placeholders_are_substituted_witness:
  "map executed_sql (trace (snd (run_queries scripted 1 False Map.empty (queries two_selects)
      ([], None, None) (fresh quiet))))
     = [''select 1'', ''select * from id:select 1 join id:select 1'']
   \<and> replace ''select * from T1 join T1'' ''T1'' ''123'' = ''select * from 123 join 123''
   \<and> replace ''select 1'' ''T1'' ''123'' = ''select 1''"
proof -
  define pre where "pre = [Query ''select 1'' ''T1'']"
  define ph where "ph = [(''T1'', ''id:select 1'')]"
  define sk where
    "sk = snd (run_queries scripted 1 False Map.empty pre ([], None, None) (fresh quiet))"
  define final where "final = snd (run_queries scripted 1 False Map.empty
    (pre @ Query ''select * from T1 join T1'' ''T2'' # []) ([], None, None) (fresh quiet))"
  have "fst (run_queries scripted 1 False Map.empty pre ([], None, None) (fresh quiet))
      = Inr (ph, Some (ResultDict (Rows [[''1'']]) ''id:select 1''), Some [])"
    by (simp add: pre_def ph_def engine_simps)
  then have h1: "run_queries scripted 1 False Map.empty pre ([], None, None) (fresh quiet)
      = (Inr (ph, Some (ResultDict (Rows [[''1'']]) ''id:select 1''), Some []), sk)"
    unfolding sk_def by (simp add: prod_eq_iff)
  have h2: "\<not> conn_is_closed scripted (conn sk)"
    by (simp add: sk_def pre_def engine_simps)
  note inst = placeholders_are_substituted [where stmt = "''select * from T1 join T1''"
      and holder = "''T2''" and post = "[]" and token = "''T1''" and ident = "''123''"
      and rws = "[]", OF h1 h2, folded final_def]
  from inst obtain rest where t: "trace final
      = trace sk @ Execute (substitute ph ''select * from T1 join T1'')
          (fst (cursor_execute scripted (substitute ph ''select * from T1 join T1'')
             Map.empty (conn sk))) # rest"
    by blast
  have "length (trace final) = 2"
    by (simp add: final_def pre_def engine_simps)
  moreover have tk: "map executed_sql (trace sk) = [''select 1'']"
    by (simp add: sk_def pre_def engine_simps)
  moreover have "length (trace sk) = 1"
    by (simp add: sk_def pre_def engine_simps)
  ultimately have "rest = []"
    using t by simp
  moreover have "substitute ph ''select * from T1 join T1''
      = ''select * from id:select 1 join id:select 1''"
    by (simp add: ph_def substitute_def replace_def)
  ultimately have r1: "map executed_sql (trace final)
      = [''select 1'', ''select * from id:select 1 join id:select 1'']"
    using t tk by simp
  have f: "first_occurrence ''T1'' ''select * from T1 join T1'' = Some 14"
    by simp
  have ne: "''T1'' \<noteq> []"
    by simp
  from inst f ne have "replace ''select * from T1 join T1'' ''T1'' ''123''
      = take 14 ''select * from T1 join T1'' @ ''123''
          @ replace (drop (14 + length ''T1'') ''select * from T1 join T1'') ''T1'' ''123''"
    by blast
  then have r2: "replace ''select * from T1 join T1'' ''T1'' ''123''
      = ''select * from 123 join 123''"
    by (simp add: replace_def)
  note inst2 = placeholders_are_substituted [where stmt = "''select 1''"
      and holder = "''T2''" and post = "[]" and token = "''T1''" and ident = "''123''"
      and rws = "[]", OF h1 h2]
  have "first_occurrence ''T1'' ''select 1'' = None"
    by simp
  with inst2 ne have r3: "replace ''select 1'' ''T1'' ''123'' = ''select 1''"
    by blast
  from r1 r2 r3 show ?thesis
    unfolding final_def pre_def by (simp add: two_selects_def)
qed

text \<open>
  A batch insert whose text names the token of the statement before it is executed with
  the token still in its text.
\<close>

theorem batch_insert_not_substituted_counterexample:
  "queries select_then_insert
     = [Query ''select 1'' ''T1'', BatchInsertQuery ''insert into t select T1'' ''T2'' [[''a'']]]
   \<and> trace (snd (get_result_set scripted select_then_insert False Map.empty (fresh quiet)))
     = [Execute ''select 1'' (Inr (Cursor ''id:select 1'' ''select 1'')),
        ExecuteMany ''insert into t select T1'' [[''a'']]
          (Inr (Cursor ''id:insert into t select T1'' ''insert into t select T1'')),
        Execute ''drop a'' (Inr (Cursor ''id:drop a'' ''drop a''))]"
  by (simp add: get_result_set_def engine_simps)

section \<open>The two loops, step by step\<close>

lemma run_post_actions_append:
  "run_post_actions env kw (xs @ ys) s =
    (case run_post_actions env kw xs s of
       (Inl ex, s') \<Rightarrow> (Inl ex, s')
     | (Inr u, s') \<Rightarrow> run_post_actions env kw ys s')"
  by (induction xs arbitrary: s) (auto split: prod.splits sum.splits)

lemma run_query_success_event:
  assumes "run_query env q to_pandas kw s = (Inr res, s')"
  shows "\<exists>c. advances s [Execute q (Inr c)] s'"
proof -
  from run_query_result [OF assms] obtain c where
    "\<not> conn_is_closed env (conn s)" "fst (cursor_execute env q kw (conn s)) = Inr c"
    by blast
  with run_query_advances [of env s q kw to_pandas] assms show ?thesis
    by auto
qed

lemma run_post_actions_success:
  "run_post_actions env kw acts s = (Inr u, s') \<Longrightarrow>
   \<exists>evs. advances s evs s' \<and> map executed_sql evs = acts \<and> (\<forall>e\<in>set evs. succeeded e)"
proof (induction acts arbitrary: s)
  case Nil
  then show ?case using advances_refl [of s] by auto
next
  case (Cons action actions)
  from Cons.prems obtain res s1 where
    rq: "run_query env action False kw s = (Inr res, s1)"
    and rest: "run_post_actions env kw actions s1 = (Inr u, s')"
    by (auto split: prod.splits sum.splits)
  from run_query_success_event [OF rq] obtain c where
    a1: "advances s [Execute action (Inr c)] s1" by blast
  from Cons.IH [OF rest] obtain evs where
    "advances s1 evs s'" "map executed_sql evs = actions" "\<forall>e\<in>set evs. succeeded e"
    by blast
  with a1 show ?case
    by - (rule exI [where x = "Execute action (Inr c) # evs"], auto dest: advances_trans)
qed

lemma run_post_actions_failure:
  "run_post_actions env kw acts s = (Inl ex, s') \<Longrightarrow>
   \<exists>done failed rest s_mid. acts = done @ failed # rest
     \<and> run_post_actions env kw done s = (Inr (), s_mid)
     \<and> run_query env failed False kw s_mid = (Inl ex, s')"
proof (induction acts arbitrary: s)
  case Nil
  then show ?case by simp
next
  case (Cons action actions)
  obtain r s1 where rq: "run_query env action False kw s = (r, s1)"
    by (cases "run_query env action False kw s")
  show ?case
  proof (cases r)
    case (Inl e)
    with Cons.prems rq have "run_query env action False kw s = (Inl ex, s')" by simp
    then show ?thesis
      by - (rule exI [where x = "[]"],
            rule exI [where x = action],
            rule exI [where x = actions],
            rule exI [where x = s],
            simp)
  next
    case (Inr res)
    with Cons.prems rq have "run_post_actions env kw actions s1 = (Inl ex, s')" by simp
    from Cons.IH [OF this] obtain dn failed rest s_mid where
      "actions = dn @ failed # rest" "run_post_actions env kw dn s1 = (Inr (), s_mid)"
      "run_query env failed False kw s_mid = (Inl ex, s')"
      by blast
    with rq Inr show ?thesis
      by - (rule exI [where x = "action # dn"],
            rule exI [where x = failed],
            rule exI [where x = rest],
            rule exI [where x = s_mid],
            simp)
  qed
qed

lemma run_post_actions_stops:
  assumes "acts = done @ failed # rest"
    and "run_post_actions env kw done s = (Inr (), s_mid)"
    and "run_query env failed False kw s_mid = (Inl ex, s_end)"
  shows "run_post_actions env kw acts s = (Inl ex, s_end)"
  using assms by (simp add: run_post_actions_append)

lemma run_query_calls:
  assumes "\<not> conn_is_closed env (conn s)"
  shows "advances s [Execute q (fst (cursor_execute env q kw (conn s)))]
      (snd (run_query env q to_pandas kw s))
    \<and> conn (snd (run_query env q to_pandas kw s)) = world_after_query env q to_pandas kw (conn s)"
proof -
  have "conn (snd (run_query env q to_pandas kw s)) = world_after_query env q to_pandas kw (conn s)"
    using assms
    by (auto simp: run_query_def snd_wrap_exception_open world_after_query_def Let_def
        notify_query_listeners_def split: prod.splits sum.splits connector_error.splits)
  with run_query_advances [OF assms] show ?thesis by simp
qed

lemma run_batch_insert_calls:
  assumes "\<not> conn_is_closed env (conn s)"
  shows "advances s (fst (batch_calls env q rws kw (conn s)))
      (snd (run_batch_insert env q rws kw s))
    \<and> conn (snd (run_batch_insert env q rws kw s)) = snd (batch_calls env q rws kw (conn s))"
  using assms unfolding run_batch_insert_def
  apply (simp add: snd_wrap_exception_open)
  apply (auto simp: Let_def batch_calls_def execute_and_notify_def set_query_tag_def truthy_def
      advances_def broadcasts_def notify_query_listeners_def add_query_def fun_eq_iff
      split: prod.splits sum.splits option.splits)
  done


lemma run_queries_stops:
  assumes "qs = done @ q # rest"
    and "run_queries env action_id to_pandas kw done vars s = (Inr vars_mid, s_mid)"
    and "run_statement env to_pandas kw q vars_mid s_mid = (Inl ex, s_end)"
  shows "run_queries env action_id to_pandas kw qs vars s = (Inl ex, s_end)"
  using assms by (simp add: run_queries_append)

section \<open>Connectors that record what the cursor receives\<close>

lemma tracked_refl: "tracked calls s s"
  using advances_refl [of s] by (auto simp: tracked_def)

lemma tracked_trans: "tracked calls s s' \<Longrightarrow> tracked calls s' s'' \<Longrightarrow> tracked calls s s''"
  unfolding tracked_def by (metis advances_trans append.assoc)

lemma recording_world_after_query:
  assumes "recording env calls"
  shows "calls (world_after_query env q to_pandas kw w)
    = calls w @ [Execute q (fst (cursor_execute env q kw w))]"
proof -
  from assms have
    ex: "\<And>q kw w. calls (snd (cursor_execute env q kw w))
        = calls w @ [Execute q (fst (cursor_execute env q kw w))]"
    and fp: "\<And>w. calls (snd (cursor_fetch_pandas_all env w)) = calls w"
    and fa: "\<And>w. calls (snd (cursor_fetchall env w)) = calls w"
    by (simp_all add: recording_def)
  obtain r w1 where e: "cursor_execute env q kw w = (r, w1)"
    by (cases "cursor_execute env q kw w")
  obtain p w2 where f: "cursor_fetch_pandas_all env w1 = (p, w2)"
    by (cases "cursor_fetch_pandas_all env w1")
  from ex [of q kw w] e have c1: "calls w1 = calls w @ [Execute q r]" by simp
  from fp [of w1] f have c2: "calls w2 = calls w1" by simp
  show ?thesis
    using e f c1 c2 fa [of w1] fa [of w2]
    by (simp add: world_after_query_def split: sum.splits connector_error.splits)
qed

lemma recording_batch_calls:
  assumes "recording env calls"
  shows "calls (snd (batch_calls env q rws kw w)) = calls w @ fst (batch_calls env q rws kw w)"
proof -
  from assms have
    ex: "\<And>q kw w. calls (snd (cursor_execute env q kw w))
        = calls w @ [Execute q (fst (cursor_execute env q kw w))]"
    and em: "\<And>q rws w. calls (snd (cursor_executemany env q rws w))
        = calls w @ [ExecuteMany q rws (fst (cursor_executemany env q rws w))]"
    by (simp_all add: recording_def)
  have ex': "calls w' = calls w0 @ [Execute t r]" if "cursor_execute env t k w0 = (r, w')"
    for t k w0 r w'
    using ex [of t k w0] that by simp
  have em': "calls w' = calls w0 @ [ExecuteMany t ps r]" if "cursor_executemany env t ps w0 = (r, w')"
    for t ps w0 r w'
    using em [of t ps w0] that by simp
  show ?thesis
    by (auto simp: batch_calls_def Let_def split: prod.splits sum.splits option.splits
        dest!: ex' em')
qed

lemma run_query_tracked:
  assumes "recording env calls"
  shows "tracked calls s (snd (run_query env q to_pandas kw s))"
proof (cases "conn_is_closed env (conn s)")
  case True
  then show ?thesis by (simp add: run_query_closed tracked_refl)
next
  case False
  from run_query_calls [OF False, of q kw to_pandas]
    recording_world_after_query [OF assms, of q to_pandas kw "conn s"]
  show ?thesis unfolding tracked_def by auto
qed

lemma run_batch_insert_tracked:
  assumes "recording env calls"
  shows "tracked calls s (snd (run_batch_insert env q rws kw s))"
proof (cases "conn_is_closed env (conn s)")
  case True
  then show ?thesis by (simp add: run_batch_insert_closed tracked_refl)
next
  case False
  from run_batch_insert_calls [OF False, of q rws kw]
    recording_batch_calls [OF assms, of q rws kw "conn s"]
  show ?thesis unfolding tracked_def by auto
qed

lemma run_statement_state:
  "snd (run_statement env to_pandas kw (Query stmt holder) (ph, r, m) s)
     = snd (run_query env (substitute ph stmt) to_pandas kw s)"
  "snd (run_statement env to_pandas kw (BatchInsertQuery stmt holder rws) (ph, r, m) s)
     = snd (run_batch_insert env stmt rws kw s)"
  by (simp_all add: run_statement_def Let_def split: prod.splits sum.splits)

lemma run_statement_tracked:
  assumes "recording env calls"
  shows "tracked calls s (snd (run_statement env to_pandas kw q vars s))"
proof -
  obtain ph r m where v: "vars = (ph, r, m)" by (cases vars)
  show ?thesis
    using run_query_tracked [OF assms] run_batch_insert_tracked [OF assms]
    by (cases q) (simp_all add: v run_statement_state)
qed

lemma run_queries_tracked:
  assumes "recording env calls"
  shows "tracked calls s (snd (run_queries env action_id to_pandas kw qs vars s))"
proof (induction qs arbitrary: vars s)
  case Nil
  then show ?case by (simp add: tracked_refl)
next
  case (Cons q qs)
  obtain r s1 where st: "run_statement env to_pandas kw q vars s = (r, s1)"
    by (cases "run_statement env to_pandas kw q vars s")
  from run_statement_tracked [OF assms, of s to_pandas kw q vars] st
  have t1: "tracked calls s s1" by simp
  show ?case
  proof (cases r)
    case (Inl ex)
    with st t1 show ?thesis by simp
  next
    case (Inr vars')
    from tracked_trans [OF t1 Cons.IH [of s1 vars']] st Inr t1 show ?thesis by simp
  qed
qed

lemma run_post_actions_tracked:
  assumes "recording env calls"
  shows "tracked calls s (snd (run_post_actions env kw acts s))"
proof (induction acts arbitrary: s)
  case Nil
  then show ?case by (simp add: tracked_refl)
next
  case (Cons action actions)
  obtain r s1 where rq: "run_query env action False kw s = (r, s1)"
    by (cases "run_query env action False kw s")
  from run_query_tracked [OF assms, of s action False kw] rq
  have t1: "tracked calls s s1" by simp
  show ?case
  proof (cases r)
    case (Inl ex)
    with rq t1 show ?thesis by simp
  next
    case (Inr res)
    from tracked_trans [OF t1 Cons.IH [of s1]] rq Inr show ?thesis by simp
  qed
qed

lemma get_result_set_state:
  "snd (get_result_set env plan to_pandas kw s)
    = snd (run_post_actions env kw (post_actions plan)
        (snd (run_queries env (fst (session_generate_new_action_id env (conn s))) to_pandas kw
           (queries plan) ([], None, None)
           (s\<lparr>conn := snd (session_generate_new_action_id env (conn s))\<rparr>))))"
  by (simp add: get_result_set_snd [OF prod.collapse [symmetric] prod.collapse [symmetric]
        prod.collapse [symmetric]])

lemma get_result_set_tracked:
  assumes "recording env calls"
  shows "tracked calls s (snd (get_result_set env plan to_pandas kw s))"
proof -
  define w0 where "w0 = snd (session_generate_new_action_id env (conn s))"
  from assms have "calls w0 = calls (conn s)"
    by (simp add: recording_def w0_def)
  then have "tracked calls s (s\<lparr>conn := w0\<rparr>)"
    using advances_refl [of s] by (auto simp: tracked_def advances_def)
  from tracked_trans [OF tracked_trans [OF this run_queries_tracked [OF assms]]
      run_post_actions_tracked [OF assms]]
  show ?thesis
    by (simp add: get_result_set_state w0_def)
qed

lemma post_action_phase:
  assumes "run_post_actions env kw acts s1 = (fin, s2)"
  shows "(fin = Inr () \<longrightarrow>
        (\<exists>evs. advances s1 evs s2 \<and> map executed_sql evs = acts
           \<and> (\<forall>e\<in>set evs. succeeded e)))
    \<and> (\<forall>ex. fin = Inl ex \<longrightarrow>
        (\<exists>done failed rest s_mid. acts = done @ failed # rest
           \<and> run_post_actions env kw done s1 = (Inr (), s_mid)
           \<and> run_query env failed False kw s_mid = (Inl ex, s2)))
    \<and> (\<forall>done failed rest s_mid ex s_end.
          acts = done @ failed # rest
          \<and> run_post_actions env kw done s1 = (Inr (), s_mid)
          \<and> run_query env failed False kw s_mid = (Inl ex, s_end) \<longrightarrow>
          fin = Inl ex \<and> s2 = s_end)
    \<and> (\<exists>evs. advances s1 evs s2
          \<and> map executed_sql evs = take (length evs) acts)"
proof -
  have a: "fin = Inr () \<longrightarrow>
        (\<exists>evs. advances s1 evs s2 \<and> map executed_sql evs = acts
           \<and> (\<forall>e\<in>set evs. succeeded e))"
    using assms run_post_actions_success [of env kw acts s1 "()" s2] by auto
  have b: "\<forall>ex. fin = Inl ex \<longrightarrow>
        (\<exists>done failed rest s_mid. acts = done @ failed # rest
           \<and> run_post_actions env kw done s1 = (Inr (), s_mid)
           \<and> run_query env failed False kw s_mid = (Inl ex, s2))"
    using assms run_post_actions_failure [of env kw acts s1 _ s2] by auto
  have c: "\<forall>done failed rest s_mid ex s_end.
          acts = done @ failed # rest
          \<and> run_post_actions env kw done s1 = (Inr (), s_mid)
          \<and> run_query env failed False kw s_mid = (Inl ex, s_end) \<longrightarrow>
          fin = Inl ex \<and> s2 = s_end"
  proof (intro allI impI)
    fix dn failed rest s_mid ex s_end
    assume h: "acts = dn @ failed # rest
          \<and> run_post_actions env kw dn s1 = (Inr (), s_mid)
          \<and> run_query env failed False kw s_mid = (Inl ex, s_end)"
    then have "run_post_actions env kw acts s1 = (Inl ex, s_end)"
      by (intro run_post_actions_stops [of acts dn failed rest env kw s1 s_mid ex s_end]) simp_all
    with assms show "fin = Inl ex \<and> s2 = s_end" by simp
  qed
  have d: "\<exists>evs. advances s1 evs s2
          \<and> map executed_sql evs = take (length evs) acts"
    using run_post_actions_events [OF assms] by blast
  from a b c d show ?thesis by blast
qed

section \<open>The post-actions\<close>

text \<open>
  Claim C1, as the code has it. On every exit path from the statement loop (normal
  completion, a statement raising, cancellation) the loop of the post-actions is run
  from the state that the statement loop left, and the state it leaves is the state
  after \<open>get_result_set\<close>. When no post-action fails, every post-action has been
  executed exactly once, in order and successfully. The loop ends with an error exactly
  when a post-action fails after those before it have succeeded, and it ends there, in
  the state that this post-action left: the post-actions after it are not executed. In
  every case the post-actions executed are the first ones, in order, each once. When a
  post-action fails, its error surfaces; when none fails and a main statement raised,
  the error of the main statement surfaces. An error surfaces through the decorator of
  \<open>SnowflakePlan\<close>.
\<close>

theorem post_actions_on_every_exit:
  assumes "session_generate_new_action_id env (conn s) = (action_id, w0)"
    and "run_queries env action_id to_pandas kw (queries plan) ([], None, None) (s\<lparr>conn := w0\<rparr>) = (body, s1)"
    and "run_post_actions env kw (post_actions plan) s1 = (fin, s2)"
  shows "snd (get_result_set env plan to_pandas kw s) = s2
    \<and> (fin = Inr () \<longrightarrow>
        (\<exists>evs. advances s1 evs s2 \<and> map executed_sql evs = post_actions plan
           \<and> (\<forall>e\<in>set evs. succeeded e)))
    \<and> (\<forall>ex. fin = Inl ex \<longrightarrow>
        (\<exists>done failed rest s_mid. post_actions plan = done @ failed # rest
           \<and> run_post_actions env kw done s1 = (Inr (), s_mid)
           \<and> run_query env failed False kw s_mid = (Inl ex, s2)))
    \<and> (\<forall>done failed rest s_mid ex s_end.
          post_actions plan = done @ failed # rest
          \<and> run_post_actions env kw done s1 = (Inr (), s_mid)
          \<and> run_query env failed False kw s_mid = (Inl ex, s_end) \<longrightarrow>
          fin = Inl ex \<and> s2 = s_end)
    \<and> (\<exists>evs. advances s1 evs s2
          \<and> map executed_sql evs = take (length evs) (post_actions plan))
    \<and> (\<forall>ex. fin = Inl ex \<longrightarrow>
          fst (get_result_set env plan to_pandas kw s) = Inl (Plan_wrap_exception env ex))
    \<and> (\<forall>ex. fin = Inr () \<and> body = Inl ex \<longrightarrow>
          fst (get_result_set env plan to_pandas kw s) = Inl (Plan_wrap_exception env ex))"
proof -
  have r: "get_result_set env plan to_pandas kw s =
    (case fin of
       Inl ex \<Rightarrow> Inl (Plan_wrap_exception env ex)
     | Inr u \<Rightarrow>
        (case body of
           Inl ex \<Rightarrow> Inl (Plan_wrap_exception env ex)
         | Inr (placeholders, result, result_meta) \<Rightarrow>
            (case result of
               None \<Rightarrow> Inl (Plan_wrap_exception env SQL_LAST_QUERY_RETURN_RESULTSET)
             | Some res \<Rightarrow> Inr (data res, result_meta))), s2)"
    by (rule get_result_set_snd [OF assms])
  have e: "snd (get_result_set env plan to_pandas kw s) = s2"
    by (simp add: r)
  have f: "\<forall>ex. fin = Inl ex \<longrightarrow>
          fst (get_result_set env plan to_pandas kw s) = Inl (Plan_wrap_exception env ex)"
    "\<forall>ex. fin = Inr () \<and> body = Inl ex \<longrightarrow>
          fst (get_result_set env plan to_pandas kw s) = Inl (Plan_wrap_exception env ex)"
    by (simp_all add: r)
  from post_action_phase [OF assms(3)] e f show ?thesis by blast
qed

text \<open>
  A plan whose second statement raises: both post-actions run and the error of the
  statement surfaces; when the first post-action raises too, its error surfaces and the
  second post-action is not executed.
\<close>

theorem post_actions_on_every_exit_witness:
  "fst (get_result_set scripted two_selects False Map.empty
     (fresh (failing ''select * from id:select 1 join id:select 1'' ''main'' quiet)))
     = Inl (Raised (OtherException ''main''))
   \<and> map executed_sql (trace (snd (get_result_set scripted two_selects False Map.empty
     (fresh (failing ''select * from id:select 1 join id:select 1'' ''main'' quiet)))))
     = [''select 1'', ''select * from id:select 1 join id:select 1'', ''drop a'', ''drop b'']
   \<and> fst (get_result_set scripted two_selects False Map.empty
     (fresh (failing ''drop a'' ''cleanup''
       (failing ''select * from id:select 1 join id:select 1'' ''main'' quiet))))
     = Inl (Raised (OtherException ''cleanup''))
   \<and> map executed_sql (trace (snd (get_result_set scripted two_selects False Map.empty
     (fresh (failing ''drop a'' ''cleanup''
       (failing ''select * from id:select 1 join id:select 1'' ''main'' quiet))))))
     = [''select 1'', ''select * from id:select 1 join id:select 1'', ''drop a'']"
proof -
  define w where "w = failing ''select * from id:select 1 join id:select 1'' ''main'' quiet"
  define body where "body = run_queries scripted
    (fst (session_generate_new_action_id scripted (conn (fresh w)))) False Map.empty
    (queries two_selects) ([], None, None)
    ((fresh w)\<lparr>conn := snd (session_generate_new_action_id scripted (conn (fresh w)))\<rparr>)"
  define fin where "fin = run_post_actions scripted Map.empty (post_actions two_selects) (snd body)"
  note inst = post_actions_on_every_exit [where env = scripted and s = "fresh w"
      and plan = two_selects and to_pandas = False and kw = Map.empty,
      OF prod.collapse [symmetric] prod.collapse [symmetric] prod.collapse [symmetric],
      folded body_def, folded fin_def]
  have b: "fst body = Inl (Raised (OtherException ''main''))"
    by (simp add: body_def w_def engine_simps)
  have tb: "map executed_sql (trace (snd body))
      = [''select 1'', ''select * from id:select 1 join id:select 1'']"
    by (simp add: body_def w_def engine_simps)
  have f: "fst fin = Inr ()"
    by (simp add: fin_def body_def w_def engine_simps)
  have pw: "Plan_wrap_exception scripted = (\<lambda>ex. ex)"
    by (simp add: scripted_def)
  have pa: "post_actions two_selects = [''drop a'', ''drop b'']"
    by (simp add: two_selects_def)
  from inst f b have r1: "fst (get_result_set scripted two_selects False Map.empty (fresh w))
      = Inl (Raised (OtherException ''main''))"
    by (simp add: pw)
  from inst f obtain evs where "advances (snd body) evs (snd fin)"
    "map executed_sql evs = post_actions two_selects"
    "snd (get_result_set scripted two_selects False Map.empty (fresh w)) = snd fin"
    by auto
  then have r2: "map executed_sql (trace (snd (get_result_set scripted two_selects False
      Map.empty (fresh w))))
      = [''select 1'', ''select * from id:select 1 join id:select 1'', ''drop a'', ''drop b'']"
    using tb by (simp add: advances_def pa)
  define w2 where "w2 = failing ''drop a'' ''cleanup'' w"
  define body2 where "body2 = run_queries scripted
    (fst (session_generate_new_action_id scripted (conn (fresh w2)))) False Map.empty
    (queries two_selects) ([], None, None)
    ((fresh w2)\<lparr>conn := snd (session_generate_new_action_id scripted (conn (fresh w2)))\<rparr>)"
  define fin2 where
    "fin2 = run_post_actions scripted Map.empty (post_actions two_selects) (snd body2)"
  define fq where "fq = run_query scripted ''drop a'' False Map.empty (snd body2)"
  note inst2 = post_actions_on_every_exit [where env = scripted and s = "fresh w2"
      and plan = two_selects and to_pandas = False and kw = Map.empty,
      OF prod.collapse [symmetric] prod.collapse [symmetric] prod.collapse [symmetric],
      folded body2_def, folded fin2_def]
  have split: "post_actions two_selects = [] @ ''drop a'' # [''drop b'']"
    by (simp add: two_selects_def)
  have none: "run_post_actions scripted Map.empty [] (snd body2) = (Inr (), snd body2)"
    by simp
  have "fst fq = Inl (Raised (OtherException ''cleanup''))"
    by (simp add: fq_def body2_def w2_def w_def engine_simps)
  then have fails: "run_query scripted ''drop a'' False Map.empty (snd body2)
      = (Inl (Raised (OtherException ''cleanup'')), snd fq)"
    unfolding fq_def [symmetric] by (simp add: prod_eq_iff)
  from inst2 split none fails
  have stop: "fst fin2 = Inl (Raised (OtherException ''cleanup'')) \<and> snd fin2 = snd fq"
    by blast
  with inst2 have r3: "fst (get_result_set scripted two_selects False Map.empty (fresh w2))
      = Inl (Raised (OtherException ''cleanup''))"
    by (simp add: pw)
  from inst2 stop have "snd (get_result_set scripted two_selects False Map.empty (fresh w2))
      = snd fq"
    by simp
  moreover have "map executed_sql (trace (snd fq))
      = [''select 1'', ''select * from id:select 1 join id:select 1'', ''drop a'']"
    by (simp add: fq_def body2_def w2_def w_def engine_simps)
  ultimately have r4: "map executed_sql (trace (snd (get_result_set scripted two_selects False
      Map.empty (fresh w2))))
      = [''select 1'', ''select * from id:select 1 join id:select 1'', ''drop a'']"
    by simp
  from r1 r2 r3 r4 show ?thesis
    unfolding w2_def w_def by simp
qed

text \<open>
  Not every post-action is executed on every exit path: when the first post-action
  raises, the second is not executed.
\<close>

theorem post_action_skipped_counterexample:
  "post_actions two_selects = [''drop a'', ''drop b'']
   \<and> map executed_sql (trace (snd (get_result_set scripted two_selects False Map.empty
        (fresh (failing ''drop a'' ''cleanup'' quiet)))))
     = [''select 1'', ''select * from id:select 1 join id:select 1'', ''drop a'']
   \<and> fst (get_result_set scripted two_selects False Map.empty
        (fresh (failing ''drop a'' ''cleanup'' quiet)))
     = Inl (Raised (OtherException ''cleanup''))"
  by (simp add: get_result_set_def engine_simps)

text \<open>
  Claim C2, as the code has it. If, after a statement of the plan completes, the
  watermark is strictly greater than the action id captured at the start, then no later
  statement of the plan executes: from the state that this statement left, only the loop
  of the post-actions runs, and the state it leaves is the state after
  \<open>get_result_set\<close>. When no post-action fails, every post-action has been executed
  exactly once, in order and successfully, and \<open>SERVER_QUERY_IS_CANCELLED\<close> is raised.
  The loop ends with an error exactly when a post-action fails after those before it
  have succeeded; it ends there, the post-actions after it are not executed, and the
  error of that post-action is raised instead. An error surfaces through the decorator
  of \<open>SnowflakePlan\<close>.
\<close>

theorem cancellation_stops_the_plan:
  assumes "session_generate_new_action_id env (conn s) = (action_id, w0)"
    and "queries plan = pre @ q # post"
    and "run_queries env action_id to_pandas kw pre ([], None, None) (s\<lparr>conn := w0\<rparr>) = (Inr vars, sk)"
    and "run_statement env to_pandas kw q vars sk = (Inr vars', sq)"
    and "action_id < session_get_last_canceled_id env (conn sq)"
    and "run_post_actions env kw (post_actions plan) sq = (fin, s2)"
  shows "snd (get_result_set env plan to_pandas kw s) = s2
    \<and> (fin = Inr () \<longrightarrow>
        (\<exists>evs. advances sq evs s2 \<and> map executed_sql evs = post_actions plan
           \<and> (\<forall>e\<in>set evs. succeeded e)))
    \<and> (\<forall>ex. fin = Inl ex \<longrightarrow>
        (\<exists>done failed rest s_mid. post_actions plan = done @ failed # rest
           \<and> run_post_actions env kw done sq = (Inr (), s_mid)
           \<and> run_query env failed False kw s_mid = (Inl ex, s2)))
    \<and> (\<forall>done failed rest s_mid ex s_end.
          post_actions plan = done @ failed # rest
          \<and> run_post_actions env kw done sq = (Inr (), s_mid)
          \<and> run_query env failed False kw s_mid = (Inl ex, s_end) \<longrightarrow>
          fin = Inl ex \<and> s2 = s_end)
    \<and> (\<exists>evs. advances sq evs s2
          \<and> map executed_sql evs = take (length evs) (post_actions plan))
    \<and> (fin = Inr () \<longrightarrow>
          fst (get_result_set env plan to_pandas kw s)
            = Inl (Plan_wrap_exception env SERVER_QUERY_IS_CANCELLED))
    \<and> (\<forall>ex. fin = Inl ex \<longrightarrow>
          fst (get_result_set env plan to_pandas kw s) = Inl (Plan_wrap_exception env ex))"
proof -
  have body: "run_queries env action_id to_pandas kw (queries plan) ([], None, None) (s\<lparr>conn := w0\<rparr>)
      = (Inl SERVER_QUERY_IS_CANCELLED, sq)"
    using run_queries_cancelled [OF assms(3,4,5)] assms(2) by simp
  have r: "get_result_set env plan to_pandas kw s =
    (case fin of
       Inl ex \<Rightarrow> Inl (Plan_wrap_exception env ex)
     | Inr u \<Rightarrow> Inl (Plan_wrap_exception env SERVER_QUERY_IS_CANCELLED), s2)"
    by (simp add: get_result_set_snd [OF assms(1) body assms(6)] split: sum.splits)
  have e: "snd (get_result_set env plan to_pandas kw s) = s2"
    by (simp add: r)
  have f: "fin = Inr () \<longrightarrow>
          fst (get_result_set env plan to_pandas kw s)
            = Inl (Plan_wrap_exception env SERVER_QUERY_IS_CANCELLED)"
    "\<forall>ex. fin = Inl ex \<longrightarrow>
          fst (get_result_set env plan to_pandas kw s) = Inl (Plan_wrap_exception env ex)"
    by (simp_all add: r)
  from post_action_phase [OF assms(6)] e f show ?thesis by blast
qed

text \<open>
  The watermark moves above the action id during the first of two statements: the second
  is not executed, both post-actions are, and the cancellation error is raised; when the
  first post-action raises, its error is raised and the second is not executed.
\<close>

theorem cancellation_stops_the_plan_witness:
  "fst (get_result_set scripted two_selects False Map.empty (fresh (cancelled_after 1 quiet)))
     = Inl SERVER_QUERY_IS_CANCELLED
   \<and> map executed_sql (trace (snd (get_result_set scripted two_selects False Map.empty
        (fresh (cancelled_after 1 quiet)))))
     = [''select 1'', ''drop a'', ''drop b'']
   \<and> fst (get_result_set scripted two_selects False Map.empty
        (fresh (failing ''drop a'' ''gone'' (cancelled_after 1 quiet))))
     = Inl (Raised (OtherException ''gone''))
   \<and> map executed_sql (trace (snd (get_result_set scripted two_selects False Map.empty
        (fresh (failing ''drop a'' ''gone'' (cancelled_after 1 quiet))))))
     = [''select 1'', ''drop a'']"
proof -
  have pw: "Plan_wrap_exception scripted = (\<lambda>ex. ex)"
    by (simp add: scripted_def)
  have pa: "post_actions two_selects = [''drop a'', ''drop b'']"
    by (simp add: two_selects_def)
  have h2: "queries two_selects
      = [] @ Query ''select 1'' ''T1'' # [Query ''select * from T1 join T1'' ''T2'']"
    by (simp add: two_selects_def)
  define vars' where "vars' = ([(''T1'', ''id:select 1'')],
    Some (ResultDict (Rows [[''1'']]) ''id:select 1''), Some ([] :: ResultMetadata list))"
  define w where "w = cancelled_after 1 quiet"
  define gen where "gen = session_generate_new_action_id scripted (conn (fresh w))"
  define s0 where "s0 = (fresh w)\<lparr>conn := snd gen\<rparr>"
  define st where "st = run_statement scripted False Map.empty (Query ''select 1'' ''T1'')
    ([], None, None) s0"
  define fin where "fin = run_post_actions scripted Map.empty (post_actions two_selects) (snd st)"
  have h1: "session_generate_new_action_id scripted (conn (fresh w)) = (fst gen, snd gen)"
    by (simp add: gen_def)
  have h3: "run_queries scripted (fst gen) False Map.empty [] ([], None, None)
      ((fresh w)\<lparr>conn := snd gen\<rparr>) = (Inr ([], None, None), s0)"
    by (simp add: s0_def)
  have "fst st = Inr vars'"
    by (simp add: st_def s0_def gen_def w_def vars'_def engine_simps)
  then have h4: "run_statement scripted False Map.empty (Query ''select 1'' ''T1'')
      ([], None, None) s0 = (Inr vars', snd st)"
    unfolding st_def [symmetric] by (simp add: prod_eq_iff)
  have h5: "fst gen < session_get_last_canceled_id scripted (conn (snd st))"
    by (simp add: st_def s0_def gen_def w_def engine_simps)
  have h6: "run_post_actions scripted Map.empty (post_actions two_selects) (snd st)
      = (fst fin, snd fin)"
    by (simp add: fin_def)
  note inst = cancellation_stops_the_plan [OF h1 h2 h3 h4 h5 h6]
  have f: "fst fin = Inr ()"
    by (simp add: fin_def st_def s0_def gen_def w_def engine_simps)
  have ts: "map executed_sql (trace (snd st)) = [''select 1'']"
    by (simp add: st_def s0_def gen_def w_def engine_simps)
  from inst f have r1: "fst (get_result_set scripted two_selects False Map.empty (fresh w))
      = Inl SERVER_QUERY_IS_CANCELLED"
    by (simp add: pw)
  from inst f obtain evs where "advances (snd st) evs (snd fin)"
    "map executed_sql evs = post_actions two_selects"
    "snd (get_result_set scripted two_selects False Map.empty (fresh w)) = snd fin"
    by auto
  then have r2: "map executed_sql (trace (snd (get_result_set scripted two_selects False
      Map.empty (fresh w)))) = [''select 1'', ''drop a'', ''drop b'']"
    using ts by (simp add: advances_def pa)
  define v where "v = failing ''drop a'' ''gone'' (cancelled_after 1 quiet)"
  define gen2 where "gen2 = session_generate_new_action_id scripted (conn (fresh v))"
  define t0 where "t0 = (fresh v)\<lparr>conn := snd gen2\<rparr>"
  define st2 where "st2 = run_statement scripted False Map.empty (Query ''select 1'' ''T1'')
    ([], None, None) t0"
  define fin2 where
    "fin2 = run_post_actions scripted Map.empty (post_actions two_selects) (snd st2)"
  define fq where "fq = run_query scripted ''drop a'' False Map.empty (snd st2)"
  have g1: "session_generate_new_action_id scripted (conn (fresh v)) = (fst gen2, snd gen2)"
    by (simp add: gen2_def)
  have g3: "run_queries scripted (fst gen2) False Map.empty [] ([], None, None)
      ((fresh v)\<lparr>conn := snd gen2\<rparr>) = (Inr ([], None, None), t0)"
    by (simp add: t0_def)
  have "fst st2 = Inr vars'"
    by (simp add: st2_def t0_def gen2_def v_def vars'_def engine_simps)
  then have g4: "run_statement scripted False Map.empty (Query ''select 1'' ''T1'')
      ([], None, None) t0 = (Inr vars', snd st2)"
    unfolding st2_def [symmetric] by (simp add: prod_eq_iff)
  have g5: "fst gen2 < session_get_last_canceled_id scripted (conn (snd st2))"
    by (simp add: st2_def t0_def gen2_def v_def engine_simps)
  have g6: "run_post_actions scripted Map.empty (post_actions two_selects) (snd st2)
      = (fst fin2, snd fin2)"
    by (simp add: fin2_def)
  note inst2 = cancellation_stops_the_plan [OF g1 h2 g3 g4 g5 g6]
  have split: "post_actions two_selects = [] @ ''drop a'' # [''drop b'']"
    by (simp add: two_selects_def)
  have none: "run_post_actions scripted Map.empty [] (snd st2) = (Inr (), snd st2)"
    by simp
  have "fst fq = Inl (Raised (OtherException ''gone''))"
    by (simp add: fq_def st2_def t0_def gen2_def v_def engine_simps)
  then have fails: "run_query scripted ''drop a'' False Map.empty (snd st2)
      = (Inl (Raised (OtherException ''gone'')), snd fq)"
    unfolding fq_def [symmetric] by (simp add: prod_eq_iff)
  from inst2 split none fails
  have stop: "fst fin2 = Inl (Raised (OtherException ''gone'')) \<and> snd fin2 = snd fq"
    by blast
  with inst2 have r3: "fst (get_result_set scripted two_selects False Map.empty (fresh v))
      = Inl (Raised (OtherException ''gone''))"
    by (simp add: pw)
  from inst2 stop have "snd (get_result_set scripted two_selects False Map.empty (fresh v))
      = snd fq"
    by simp
  moreover have "map executed_sql (trace (snd fq)) = [''select 1'', ''drop a'']"
    by (simp add: fq_def st2_def t0_def gen2_def v_def engine_simps)
  ultimately have r4: "map executed_sql (trace (snd (get_result_set scripted two_selects False
      Map.empty (fresh v)))) = [''select 1'', ''drop a'']"
    by simp
  from r1 r2 r3 r4 show ?thesis
    unfolding w_def v_def by simp
qed

text \<open>
  The cancellation error is not always raised: the action id is 1, the watermark is 100
  after the first statement, and the first post-action raises; its error surfaces.
\<close>

theorem cancellation_counterexample:
  "fst (session_generate_new_action_id scripted
      (failing ''drop a'' ''cleanup'' (cancelled_after 1 quiet))) = 1
   \<and> session_get_last_canceled_id scripted (conn (snd (run_statement scripted False Map.empty
        (Query ''select 1'' ''T1'') ([], None, None)
        (fresh (failing ''drop a'' ''cleanup'' (cancelled_after 1 quiet)))))) = 100
   \<and> map executed_sql (trace (snd (get_result_set scripted two_selects False Map.empty
        (fresh (failing ''drop a'' ''cleanup'' (cancelled_after 1 quiet))))))
     = [''select 1'', ''drop a'']
   \<and> fst (get_result_set scripted two_selects False Map.empty
        (fresh (failing ''drop a'' ''cleanup'' (cancelled_after 1 quiet))))
     = Inl (Raised (OtherException ''cleanup''))"
  by (simp add: get_result_set_def engine_simps)

section \<open>Plans of batch inserts\<close>







section \<open>The listeners\<close>

text \<open>
  Claim C6. Every statement the engine executes, the statements that set and unset the
  query tag around a batch insert included, is broadcast exactly once, as its
  (statement id, statement text) pair, to every listener registered at that moment, and
  registering or unregistering a listener takes effect for the statements that follow.
  On a closed connection \<open>run_query\<close> and \<open>run_batch_insert\<close> change nothing. On an
  open one, \<open>run_query\<close> makes one call of \<open>execute\<close>, and \<open>run_batch_insert\<close> makes the
  calls of \<open>batch_calls\<close>, the tag statements among them; the world is left as these
  calls and the fetches leave it, and the histories of the registered listeners grow by
  the records of the successful calls, one for each, in order, while no other history
  changes (\<open>advances\<close>). For a connector whose world records the statements that the
  cursor receives, what it has recorded during \<open>run_query\<close>,
  \<open>run_batch_insert\<close> or \<open>get_result_set\<close> is what the listeners were sent
  (\<open>tracked\<close>). \<open>add_query_listener\<close> and \<open>remove_query_listener\<close> change the set of
  listeners and nothing else, so the statements executed from the new state are
  broadcast to the new set.
\<close>

theorem listener_fidelity:
  "(conn_is_closed env (conn s) \<longrightarrow>
       snd (run_query env q to_pandas kw s) = s
     \<and> snd (run_batch_insert env q rws kw s) = s)
   \<and> (\<not> conn_is_closed env (conn s) \<longrightarrow>
       advances s [Execute q (fst (cursor_execute env q kw (conn s)))]
         (snd (run_query env q to_pandas kw s))
     \<and> conn (snd (run_query env q to_pandas kw s))
         = world_after_query env q to_pandas kw (conn s)
     \<and> advances s (fst (batch_calls env q rws kw (conn s)))
         (snd (run_batch_insert env q rws kw s))
     \<and> conn (snd (run_batch_insert env q rws kw s)) = snd (batch_calls env q rws kw (conn s)))
   \<and> (recording env calls \<longrightarrow>
       tracked calls s (snd (run_query env q to_pandas kw s))
     \<and> tracked calls s (snd (run_batch_insert env q rws kw s))
     \<and> tracked calls s (snd (get_result_set env plan to_pandas kw s)))
   \<and> (\<exists>evs. advances s evs (snd (get_result_set env plan to_pandas kw s)))
   \<and> query_listener (add_query_listener l s) = insert l (query_listener s)
   \<and> histories (add_query_listener l s) = histories s
   \<and> trace (add_query_listener l s) = trace s
   \<and> conn (add_query_listener l s) = conn s
   \<and> (case remove_query_listener l s of
         Inl ex \<Rightarrow> l \<notin> query_listener s
       | Inr s' \<Rightarrow> query_listener s' = query_listener s - {l}
                  \<and> histories s' = histories s \<and> trace s' = trace s \<and> conn s' = conn s)"
proof -
  have a: "conn_is_closed env (conn s) \<longrightarrow>
       snd (run_query env q to_pandas kw s) = s
     \<and> snd (run_batch_insert env q rws kw s) = s"
    by (simp add: run_query_closed run_batch_insert_closed)
  have b: "\<not> conn_is_closed env (conn s) \<longrightarrow>
       advances s [Execute q (fst (cursor_execute env q kw (conn s)))]
         (snd (run_query env q to_pandas kw s))
     \<and> conn (snd (run_query env q to_pandas kw s))
         = world_after_query env q to_pandas kw (conn s)
     \<and> advances s (fst (batch_calls env q rws kw (conn s)))
         (snd (run_batch_insert env q rws kw s))
     \<and> conn (snd (run_batch_insert env q rws kw s)) = snd (batch_calls env q rws kw (conn s))"
    using run_query_calls [of env s q kw to_pandas] run_batch_insert_calls [of env s q rws kw]
    by blast
  have c: "recording env calls \<longrightarrow>
       tracked calls s (snd (run_query env q to_pandas kw s))
     \<and> tracked calls s (snd (run_batch_insert env q rws kw s))
     \<and> tracked calls s (snd (get_result_set env plan to_pandas kw s))"
    using run_query_tracked run_batch_insert_tracked get_result_set_tracked by blast
  have d: "\<exists>evs. advances s evs (snd (get_result_set env plan to_pandas kw s))"
    by (rule get_result_set_advances)
  have e: "query_listener (add_query_listener l s) = insert l (query_listener s)
   \<and> histories (add_query_listener l s) = histories s
   \<and> trace (add_query_listener l s) = trace s
   \<and> conn (add_query_listener l s) = conn s
   \<and> (case remove_query_listener l s of
         Inl ex \<Rightarrow> l \<notin> query_listener s
       | Inr s' \<Rightarrow> query_listener s' = query_listener s - {l}
                  \<and> histories s' = histories s \<and> trace s' = trace s \<and> conn s' = conn s)"
    by (simp add: add_query_listener_def remove_query_listener_def)
  from a b c d e show ?thesis by blast
qed

text \<open>
  A listener registered before a plan with a tagged batch insert and a post-action is
  sent the four statements that the cursor received; a listener that is not registered
  is sent none.
\<close>

theorem listener_fidelity_witness:
  "histories (snd (get_result_set recorder insert_only False
      [''_statement_params'' \<mapsto> [''QUERY_TAG'' \<mapsto> ''nightly'']]
      (add_query_listener 7 (recorded quiet)))) 7
    = [(''id:'' @ set_query_tag ''nightly'', set_query_tag ''nightly''),
       (''id:insert into t values (?)'', ''insert into t values (?)''),
       (''id:alter session unset query_tag'', ''alter session unset query_tag''),
       (''id:drop a'', ''drop a'')]
   \<and> histories (snd (get_result_set recorder insert_only False
      [''_statement_params'' \<mapsto> [''QUERY_TAG'' \<mapsto> ''nightly'']]
      (add_query_listener 7 (recorded quiet)))) 8 = []"
proof -
  define kw :: kwargs where "kw = [''_statement_params'' \<mapsto> [''QUERY_TAG'' \<mapsto> ''nightly'']]"
  define s where "s = add_query_listener 7 (recorded quiet)"
  define s' where "s' = snd (get_result_set recorder insert_only False kw s)"
  have rec: "recording recorder snd"
    by (simp add: recording_def recorder_def)
  from listener_fidelity [where s = s and env = recorder and plan = insert_only
      and to_pandas = False and kw = kw and calls = snd] rec
  have "tracked snd s s'"
    unfolding s'_def by blast
  then obtain evs where adv: "advances s evs s'"
    and received: "snd (conn s') = snd (conn s) @ evs"
    unfolding tracked_def by blast
  have start: "trace s = []" "query_listener s = {7}" "\<And>l. histories s l = []"
    "snd (conn s) = []"
    by (simp_all add: s_def add_query_listener_def recorded_def)
  have "snd (conn s') =
    [Execute (set_query_tag ''nightly'')
       (Inr (Cursor (''id:'' @ set_query_tag ''nightly'') (set_query_tag ''nightly''))),
     ExecuteMany ''insert into t values (?)'' [[''a''], [''b'']]
       (Inr (Cursor ''id:insert into t values (?)'' ''insert into t values (?)'')),
     Execute ''alter session unset query_tag''
       (Inr (Cursor ''id:alter session unset query_tag'' ''alter session unset query_tag'')),
     Execute ''drop a'' (Inr (Cursor ''id:drop a'' ''drop a''))]"
    by (simp add: s'_def s_def kw_def add_query_listener_def recorded_def recorder_def
        get_result_set_def set_query_tag_def engine_simps)
  with received start have ev: "evs =
    [Execute (set_query_tag ''nightly'')
       (Inr (Cursor (''id:'' @ set_query_tag ''nightly'') (set_query_tag ''nightly''))),
     ExecuteMany ''insert into t values (?)'' [[''a''], [''b'']]
       (Inr (Cursor ''id:insert into t values (?)'' ''insert into t values (?)'')),
     Execute ''alter session unset query_tag''
       (Inr (Cursor ''id:alter session unset query_tag'' ''alter session unset query_tag'')),
     Execute ''drop a'' (Inr (Cursor ''id:drop a'' ''drop a''))]"
    by simp
  from adv have "histories s' = (\<lambda>l. if l = 7 then broadcasts evs else [])"
    by (auto simp: advances_def start fun_eq_iff)
  then show ?thesis
    unfolding s'_def [symmetric] s_def [symmetric] kw_def [symmetric]
    by (simp add: ev broadcasts_def)
qed

end
